theory Spec2Isabelle
  imports Main
begin

section \<open>JavaScript \<open>Map\<close> objects\<close>

text \<open>
  A JavaScript \<open>Map\<close> keeps its entries in insertion order, and \<open>set\<close> on a key that is
  already present replaces the value where the entry stands. It is modelled as a list of
  key/value pairs, oldest entry first. \<open>Map_get\<close> returns \<open>None\<close> where JavaScript returns
  \<open>undefined\<close>; no map of the program stores \<open>undefined\<close>, so \<open>has(k)\<close> is
  \<open>Map_get m k \<noteq> None\<close>.
\<close>

type_synonym ('k, 'v) jsmap = "('k \<times> 'v) list"

definition Map_get :: "('k, 'v) jsmap \<Rightarrow> 'k \<Rightarrow> 'v option" where
  "Map_get m k = map_of m k"

fun Map_set :: "('k, 'v) jsmap \<Rightarrow> 'k \<Rightarrow> 'v \<Rightarrow> ('k, 'v) jsmap" where
  "Map_set [] k v = [(k, v)]"
| "Map_set ((k', v') # m) k v =
     (if k' = k then (k, v) # m else (k', v') # Map_set m k v)"

definition Map_delete :: "('k, 'v) jsmap \<Rightarrow> 'k \<Rightarrow> ('k, 'v) jsmap" where
  "Map_delete m k = filter (\<lambda>p. fst p \<noteq> k) m"

definition Map_size :: "('k, 'v) jsmap \<Rightarrow> nat" where
  "Map_size m = length m"

definition Map_keys :: "('k, 'v) jsmap \<Rightarrow> 'k list" where
  "Map_keys m = map fst m"

section \<open>Phone number normalisation (\<open>utils/whatsappManager.js\<close>)\<close>

text \<open>The character class \<open>\d\<close> of a JavaScript regular expression: the ten ASCII digits.\<close>

definition isDigit :: "char \<Rightarrow> bool" where
  "isDigit c = (c \<in> set ''0123456789'')"

text \<open>\<open>/^\d{10,}$/.test(s)\<close>: the whole string is digits, and there are at least ten.\<close>

definition test_digits10 :: "string \<Rightarrow> bool" where
  "test_digits10 s = (10 \<le> length s \<and> list_all isDigit s)"

text \<open>
  \<open>formatPhoneNumber(number)\<close>: remove every non-digit, put \<open>91\<close> in front unless the
  test above succeeds, remove leading zeros (\<open>replace(/^0+/, '')\<close>), append \<open>@c.us\<close>.
\<close>

definition formatPhoneNumber :: "string \<Rightarrow> string" where
  "formatPhoneNumber number =
     (let cleaned = filter isDigit number;
          cleaned = (if \<not> test_digits10 cleaned then ''91'' @ cleaned else cleaned);
          cleaned = dropWhile (\<lambda>c. c = CHR ''0'') cleaned
      in cleaned @ ''@c.us'')"

text \<open>
  \<open>getFormattedNumber(number)\<close> with the field \<open>this.numberFormatCache\<close> passed in and
  returned; \<open>None\<close> is the field before its first use. When the cache holds more than
  1000 entries the oldest key is deleted before the new entry is stored.
\<close>

type_synonym numberFormatCache = "(string, string) jsmap option"

definition getFormattedNumber :: "numberFormatCache \<Rightarrow> string \<Rightarrow> string \<times> numberFormatCache" where
  "getFormattedNumber cache0 number =
     (let cache = (case cache0 of None \<Rightarrow> [] | Some c \<Rightarrow> c)
      in case Map_get cache number of
           Some v \<Rightarrow> (v, Some cache)
         | None \<Rightarrow>
             (let formattedNumber = formatPhoneNumber number;
                  cache = (if Map_size cache > 1000
                           then (case Map_keys cache of
                                   [] \<Rightarrow> cache
                                 | oldestKey # _ \<Rightarrow> Map_delete cache oldestKey)
                           else cache)
              in (formattedNumber, Some (Map_set cache number formattedNumber))))"

text \<open>The cache after a sequence of calls, starting from the field as the constructor leaves it.\<close>

definition cacheAfter :: "string list \<Rightarrow> numberFormatCache" where
  "cacheAfter numbers = fold (\<lambda>n c. snd (getFormattedNumber c n)) numbers None"

section \<open>Values, errors and the state of the process\<close>

text \<open>
  Object literals (log records, message payloads, table rows) are lists of named fields.
  The time stamps \<open>created_at\<close> and \<open>updated_at\<close> are left out of every record.
\<close>

datatype jsval = JStr string | JNum int | JBool bool | JNull

type_synonym jsobject = "(string \<times> jsval) list"

type_synonym accountId = string

text \<open>
  The transport client of \<open>whatsapp-web.js\<close>, as far as the manager looks at it:
  \<open>pupPage\<close> is \<open>None\<close> while the client has no page, otherwise the page's
  \<open>_closed\<close> flag.
\<close>

record client =
  pupPage :: "bool option"

record queueItem =
  qi_number :: string
  qi_message :: string
  qi_options :: jsobject
  qi_timestamp :: int

text \<open>What \<open>client.sendMessage\<close> resolves to: \<open>id._serialized\<close>, \<open>from\<close>, \<open>to\<close>, \<open>timestamp\<close>.\<close>

record sendResult =
  res_id :: string
  res_from :: string
  res_to :: string
  res_timestamp :: int

text \<open>A row of the table \<open>webhooks\<close>.\<close>

record webhook =
  wh_id :: string
  wh_account_id :: accountId
  wh_url :: string
  wh_secret :: string
  wh_is_active :: bool

text \<open>An \<open>axios.post\<close> call: URL, body, the headers and the timeout.\<close>

record request =
  rq_url :: string
  rq_payload :: jsobject
  rq_headers :: "(string \<times> string) list"
  rq_timeout :: nat

datatype error =
    QueueFull
  | ClientNotFound
  | NotReady "string option"
  | PageUnavailable
  | TransportError string
  | DestroyError string
  | StoreError
  | FsError

text \<open>The \<open>message\<close> of the thrown \<open>Error\<close>.\<close>

fun errorMessage :: "error \<Rightarrow> string" where
  "errorMessage QueueFull = ''Message queue is full. Please try again later.''"
| "errorMessage ClientNotFound = ''WhatsApp client not found for this account''"
| "errorMessage (NotReady None) = ''WhatsApp client is not ready. Current status: undefined''"
| "errorMessage (NotReady (Some st)) = ''WhatsApp client is not ready. Current status: '' @ st"
| "errorMessage PageUnavailable = ''WhatsApp client page is closed or not available''"
| "errorMessage (TransportError msg) = msg"
| "errorMessage (DestroyError msg) = msg"
| "errorMessage StoreError = ''store error''"
| "errorMessage FsError = ''file system error''"

text \<open>
  The mutable state of the process: the fields of the \<open>WhatsAppManager\<close> singleton
  (\<open>clients\<close>, \<open>qrCodes\<close>, \<open>accountStatus\<close>, \<open>messageQueues\<close>,
  \<open>numberFormatCache\<close>), the tables and the query cache of \<open>config/database.js\<close>
  (\<open>dbAccounts\<close>, \<open>dbWebhooks\<close> newest row first, \<open>queryCache\<close>), the
  \<open>webhookSecretCache\<close> of \<open>index.js\<close>, and three traces of what left the process:
  the calls of \<open>client.sendMessage\<close>, the HTTP posts, and the records handed to
  \<open>db.logMessage\<close>.
\<close>

record world =
  clients :: "(accountId, client) jsmap"
  qrCodes :: "(accountId, string) jsmap"
  accountStatus :: "(accountId, string) jsmap"
  messageQueues :: "(accountId, queueItem list) jsmap option"
  numberFormatCache :: numberFormatCache
  dbAccounts :: "(accountId, jsobject) jsmap"
  dbWebhooks :: "webhook list"
  queryCache :: "(string, webhook list \<times> int) jsmap"
  webhookSecretCache :: "(string, webhook option) jsmap"
  transportCalls :: "(accountId \<times> string \<times> string) list"
  posted :: "request list"
  logged :: "jsobject list"

definition initialWorld :: world where
  "initialWorld =
     \<lparr>clients = [], qrCodes = [], accountStatus = [], messageQueues = None,
      numberFormatCache = None, dbAccounts = [], dbWebhooks = [], queryCache = [],
      webhookSecretCache = [], transportCalls = [], posted = [], logged = []\<rparr>"

text \<open>
  \<open>db.logMessage(record)\<close>, which \<open>logOutgoingMessage\<close> and \<open>logWebhookDelivery\<close>
  call from a \<open>setImmediate\<close> callback.
\<close>

definition logMessage :: "jsobject \<Rightarrow> world \<Rightarrow> world" where
  "logMessage messageData s = s\<lparr>logged := logged s @ [messageData]\<rparr>"

section \<open>The outbound queue: \<open>sendMessage\<close>\<close>

text \<open>\<open>Array.prototype.findIndex\<close> (\<open>None\<close> for \<open>-1\<close>) and \<open>splice(index, 1)\<close>.\<close>

fun findIndex :: "('a \<Rightarrow> bool) \<Rightarrow> 'a list \<Rightarrow> nat option" where
  "findIndex P [] = None"
| "findIndex P (x # xs) = (if P x then Some 0 else map_option Suc (findIndex P xs))"

definition splice1 :: "nat \<Rightarrow> 'a list \<Rightarrow> 'a list" where
  "splice1 i xs = take i xs @ drop (Suc i) xs"

text \<open>The queue of an account; an account without a queue has depth 0.\<close>

definition queueOf :: "world \<Rightarrow> accountId \<Rightarrow> queueItem list" where
  "queueOf s accountId =
     (case messageQueues s of
        None \<Rightarrow> []
      | Some qs \<Rightarrow> (case Map_get qs accountId of None \<Rightarrow> [] | Some q \<Rightarrow> q))"

definition setQueue :: "accountId \<Rightarrow> queueItem list \<Rightarrow> world \<Rightarrow> world" where
  "setQueue accountId q s =
     s\<lparr>messageQueues :=
         Some (Map_set (case messageQueues s of None \<Rightarrow> [] | Some qs \<Rightarrow> qs) accountId q)\<rparr>"

text \<open>The \<open>catch\<close> block of \<open>sendMessage\<close>: log the failure, throw the error again.\<close>

definition sendFailed ::
  "accountId \<Rightarrow> string \<Rightarrow> string \<Rightarrow> error \<Rightarrow> world \<Rightarrow> (error + jsobject) \<times> world" where
  "sendFailed accountId number message e s =
     (Inl e,
      logMessage
        [(''account_id'', JStr accountId), (''direction'', JStr ''outgoing''),
         (''recipient'', JStr number), (''message'', JStr message),
         (''status'', JStr ''failed''), (''error_message'', JStr (errorMessage e))] s)"

text \<open>
  \<open>sendMessage\<close> up to the \<open>await\<close>: the queue is created on demand, the depth is
  checked (before the \<open>try\<close>, so an overflow is not logged), then the client, the status
  and the page; the number is formatted, the item pushed and \<open>client.sendMessage\<close>
  called. \<open>now\<close> is \<open>Date.now()\<close>. The result is the rejection, or the item admitted.
\<close>

definition sendMessage_admit ::
  "world \<Rightarrow> int \<Rightarrow> accountId \<Rightarrow> string \<Rightarrow> string \<Rightarrow> jsobject
     \<Rightarrow> ((error + jsobject) + queueItem) \<times> world" where
  "sendMessage_admit s0 now accountId number message options =
     (let s = setQueue accountId (queueOf s0 accountId) s0;
          queue = queueOf s accountId
      in if length queue > 20 then (Inl (Inl QueueFull), s)
         else
           (case Map_get (clients s) accountId of
              None \<Rightarrow> (case sendFailed accountId number message ClientNotFound s of
                          (r, s') \<Rightarrow> (Inl r, s'))
            | Some client \<Rightarrow>
                (let status = Map_get (accountStatus s) accountId
                 in if status \<noteq> Some ''ready''
                    then (case sendFailed accountId number message (NotReady status) s of
                            (r, s') \<Rightarrow> (Inl r, s'))
                    else if pupPage client = None \<or> pupPage client = Some True
                    then (case sendFailed accountId number message PageUnavailable s of
                            (r, s') \<Rightarrow> (Inl r, s'))
                    else
                      (case getFormattedNumber (numberFormatCache s) number of
                         (formattedNumber, cache) \<Rightarrow>
                           (let queueItem = \<lparr>qi_number = formattedNumber, qi_message = message,
                                             qi_options = options, qi_timestamp = now\<rparr>;
                                s = s\<lparr>numberFormatCache := cache\<rparr>;
                                s = setQueue accountId (queue @ [queueItem]) s;
                                s = s\<lparr>transportCalls :=
                                        transportCalls s @ [(accountId, formattedNumber, message)]\<rparr>
                            in (Inr queueItem, s))))))"

text \<open>
  \<open>sendMessage\<close> after the \<open>await\<close>. \<open>outcome\<close> is how \<open>client.sendMessage\<close>
  settled: \<open>Inl msg\<close> when it rejected, \<open>Inr result\<close> when it resolved. Only the
  resolved branch looks the item up (by number, message and time stamp) and splices it
  out; the rejected branch goes to the \<open>catch\<close> block.
\<close>

definition sendMessage_settle ::
  "world \<Rightarrow> accountId \<Rightarrow> string \<Rightarrow> string \<Rightarrow> queueItem \<Rightarrow> string + sendResult
     \<Rightarrow> (error + jsobject) \<times> world" where
  "sendMessage_settle s accountId number message queueItem outcome =
     (case outcome of
        Inl msg \<Rightarrow> sendFailed accountId number message (TransportError msg) s
      | Inr result \<Rightarrow>
          (let queue = queueOf s accountId;
               index = findIndex (\<lambda>item. qi_number item = qi_number queueItem \<and>
                                          qi_message item = message \<and>
                                          qi_timestamp item = qi_timestamp queueItem) queue;
               s = (case index of
                      None \<Rightarrow> s
                    | Some i \<Rightarrow> setQueue accountId (splice1 i queue) s);
               s = logMessage
                     [(''account_id'', JStr accountId), (''direction'', JStr ''outgoing''),
                      (''message_id'', JStr (res_id result)), (''sender'', JStr (res_from result)),
                      (''recipient'', JStr (res_to result)), (''message'', JStr message),
                      (''timestamp'', JNum (res_timestamp result)), (''type'', JStr ''text''),
                      (''status'', JStr ''success'')] s
           in (Inr [(''success'', JBool True), (''messageId'', JStr (res_id result)),
                    (''timestamp'', JNum (res_timestamp result))], s)))"

text \<open>The whole call, when nothing else runs between the admission and the completion.\<close>

definition sendMessage ::
  "world \<Rightarrow> int \<Rightarrow> string + sendResult \<Rightarrow> accountId \<Rightarrow> string \<Rightarrow> string \<Rightarrow> jsobject
     \<Rightarrow> (error + jsobject) \<times> world" where
  "sendMessage s now outcome accountId number message options =
     (case sendMessage_admit s now accountId number message options of
        (Inl r, s') \<Rightarrow> (r, s')
      | (Inr queueItem, s') \<Rightarrow> sendMessage_settle s' accountId number message queueItem outcome)"

section \<open>Account lifecycle\<close>

text \<open>
  \<open>db.updateAccount(id, updates)\<close>: the fields of \<open>updates\<close> overwrite those of the row
  with that id, if there is one. \<open>ok\<close> tells whether the store answers without an error;
  \<open>None\<close> is the thrown error.
\<close>

definition updateRow :: "jsobject \<Rightarrow> jsobject \<Rightarrow> jsobject" where
  "updateRow row updates = fold (\<lambda>kv r. Map_set r (fst kv) (snd kv)) updates row"

definition db_updateAccount :: "bool \<Rightarrow> accountId \<Rightarrow> jsobject \<Rightarrow> world \<Rightarrow> world option" where
  "db_updateAccount ok accountId updates s =
     (if \<not> ok then None
      else Some (case Map_get (dbAccounts s) accountId of
                   None \<Rightarrow> s
                 | Some row \<Rightarrow>
                     s\<lparr>dbAccounts := Map_set (dbAccounts s) accountId (updateRow row updates)\<rparr>))"

definition setStatus :: "accountId \<Rightarrow> string \<Rightarrow> world \<Rightarrow> world" where
  "setStatus accountId status s =
     s\<lparr>accountStatus := Map_set (accountStatus s) accountId status\<rparr>"

text \<open>
  \<open>createAccount(accountName, description)\<close>. \<open>accountId\<close> is the fresh \<open>uuidv4()\<close>;
  \<open>fsOk\<close> and \<open>dbOk\<close> tell whether \<open>fs.ensureDir\<close> and \<open>db.createAccount\<close> succeed.
  The \<open>catch\<close> block sets the status \<open>failed\<close> and throws again. The new client has no
  page yet; its \<open>initialize()\<close> runs on after the function has returned.
\<close>

definition createAccount ::
  "world \<Rightarrow> accountId \<Rightarrow> bool \<Rightarrow> bool \<Rightarrow> string \<Rightarrow> string \<Rightarrow> (error + jsobject) \<times> world" where
  "createAccount s accountId fsOk dbOk accountName description =
     (if \<not> fsOk then (Inl FsError, setStatus accountId ''failed'' s)
      else
        (let accountData =
               [(''id'', JStr accountId), (''name'', JStr accountName),
                (''description'', JStr description), (''status'', JStr ''initializing''),
                (''session_dir'', JStr (''./sessions/'' @ accountId))];
             s = (if dbOk then s\<lparr>dbAccounts := Map_set (dbAccounts s) accountId accountData\<rparr>
                  else s);
             s = s\<lparr>clients := Map_set (clients s) accountId \<lparr>pupPage = None\<rparr>\<rparr>;
             s = setStatus accountId ''initializing'' s
         in if dbOk then (Inr accountData, s)
            else (Inl StoreError, setStatus accountId ''failed'' s)))"

text \<open>The handler of a rejected \<open>client.initialize()\<close> in \<open>createAccount\<close>.\<close>

definition on_initialize_error :: "world \<Rightarrow> accountId \<Rightarrow> string \<Rightarrow> bool \<Rightarrow> world" where
  "on_initialize_error s accountId msg dbOk =
     (let s = setStatus accountId ''failed'' s
      in case db_updateAccount dbOk accountId
                [(''status'', JStr ''failed''), (''error_message'', JStr msg)] s of
           None \<Rightarrow> s
         | Some s' \<Rightarrow> s')"

text \<open>
  The handlers installed by \<open>setupEventHandlers\<close>. Each one writes the store first and
  the in-memory status afterwards, inside a \<open>try\<close> whose \<open>catch\<close> only prints; \<open>dbOk\<close>
  tells whether the write (and building its argument) succeeds. For \<open>qr\<close>, the data URL
  is \<open>None\<close> when \<open>qrcode.toDataURL\<close> fails. No handler reads the current status.
\<close>

definition on_qr :: "world \<Rightarrow> accountId \<Rightarrow> string option \<Rightarrow> bool \<Rightarrow> world" where
  "on_qr s accountId dataUrl dbOk =
     (case dataUrl of
        None \<Rightarrow> s
      | Some qrDataUrl \<Rightarrow>
          (let s = s\<lparr>qrCodes := Map_set (qrCodes s) accountId qrDataUrl\<rparr>
           in case db_updateAccount dbOk accountId
                     [(''status'', JStr ''qr_ready''), (''qr_code'', JStr qrDataUrl)] s of
                None \<Rightarrow> s
              | Some s' \<Rightarrow> setStatus accountId ''qr_ready'' s'))"

definition on_ready :: "world \<Rightarrow> accountId \<Rightarrow> string \<Rightarrow> bool \<Rightarrow> world" where
  "on_ready s accountId phone dbOk =
     (case db_updateAccount dbOk accountId
             [(''status'', JStr ''ready''), (''phone_number'', JStr phone)] s of
        None \<Rightarrow> s
      | Some s' \<Rightarrow>
          (let s' = setStatus accountId ''ready'' s'
           in s'\<lparr>qrCodes := Map_delete (qrCodes s') accountId\<rparr>))"

definition on_authenticated :: "world \<Rightarrow> accountId \<Rightarrow> world" where
  "on_authenticated s accountId = s"

definition on_auth_failure :: "world \<Rightarrow> accountId \<Rightarrow> string \<Rightarrow> bool \<Rightarrow> world" where
  "on_auth_failure s accountId msg dbOk =
     (case db_updateAccount dbOk accountId
             [(''status'', JStr ''auth_failed''), (''error_message'', JStr msg)] s of
        None \<Rightarrow> s
      | Some s' \<Rightarrow> setStatus accountId ''auth_failed'' s')"

definition on_disconnected :: "world \<Rightarrow> accountId \<Rightarrow> string \<Rightarrow> bool \<Rightarrow> world" where
  "on_disconnected s accountId reason dbOk =
     (case db_updateAccount dbOk accountId
             [(''status'', JStr ''disconnected''), (''error_message'', JStr reason)] s of
        None \<Rightarrow> s
      | Some s' \<Rightarrow> setStatus accountId ''disconnected'' s')"

text \<open>
  \<open>deleteAccount(accountId)\<close>. \<open>destroy\<close> is \<open>Some msg\<close> when \<open>client.destroy()\<close>
  rejects with that message. Every failure lands in the one \<open>catch\<close> block, which prints
  the error and throws it again.
\<close>

definition deleteAccount ::
  "world \<Rightarrow> accountId \<Rightarrow> string option \<Rightarrow> bool \<Rightarrow> (error + bool) \<times> world" where
  "deleteAccount s accountId destroy dbOk =
     (let torn = (case Map_get (clients s) accountId of
                    None \<Rightarrow> Inr s
                  | Some client \<Rightarrow>
                      (case destroy of
                         Some msg \<Rightarrow> Inl (DestroyError msg)
                       | None \<Rightarrow> Inr (s\<lparr>clients := Map_delete (clients s) accountId\<rparr>)))
      in case torn of
           Inl e \<Rightarrow> (Inl e, s)
         | Inr s \<Rightarrow>
             (let s = s\<lparr>qrCodes := Map_delete (qrCodes s) accountId\<rparr>;
                  s = s\<lparr>accountStatus := Map_delete (accountStatus s) accountId\<rparr>
              in if dbOk then (Inr True, s\<lparr>dbAccounts := Map_delete (dbAccounts s) accountId\<rparr>)
                 else (Inl StoreError, s)))"

text \<open>
  \<open>reconnectAccount(account)\<close>, in two parts: up to \<open>await client.initialize()\<close>, and
  the \<open>catch\<close> block, entered when \<open>fs.ensureDir\<close> or the initialisation fails. An
  error of the store inside the \<open>catch\<close> block leaves the function as an exception.
\<close>

definition reconnectAccount_catch :: "world \<Rightarrow> accountId \<Rightarrow> bool \<Rightarrow> (error + unit) \<times> world" where
  "reconnectAccount_catch s accountId dbOk =
     (case db_updateAccount dbOk accountId [(''status'', JStr ''disconnected'')] s of
        None \<Rightarrow> (Inl StoreError, s)
      | Some s' \<Rightarrow> (Inr (), setStatus accountId ''disconnected'' s'))"

definition reconnectAccount_start ::
  "world \<Rightarrow> accountId \<Rightarrow> bool \<Rightarrow> bool \<Rightarrow> (error + unit) \<times> world" where
  "reconnectAccount_start s accountId fsOk dbOk =
     (if \<not> fsOk then reconnectAccount_catch s accountId dbOk
      else
        (let s = s\<lparr>clients := Map_set (clients s) accountId \<lparr>pupPage = None\<rparr>\<rparr>
         in (Inr (), setStatus accountId ''initializing'' s)))"

text \<open>
  Everything that can happen to the registry, as one step function: the operations of the
  manager and the events of the transport, each with the outcomes of the calls it makes.
\<close>

datatype lifecycleOp =
    CreateAccount accountId bool bool string string
  | InitializeError accountId string bool
  | EvQr accountId "string option" bool
  | EvReady accountId string bool
  | EvAuthenticated accountId
  | EvAuthFailure accountId string bool
  | EvDisconnected accountId string bool
  | DeleteAccount accountId "string option" bool
  | ReconnectStart accountId bool bool
  | ReconnectInitFailed accountId bool
  | SendMessage int "string + sendResult" accountId string string jsobject

fun applyOp :: "lifecycleOp \<Rightarrow> world \<Rightarrow> world" where
  "applyOp (CreateAccount a fsOk dbOk name description) s =
     snd (createAccount s a fsOk dbOk name description)"
| "applyOp (InitializeError a msg dbOk) s = on_initialize_error s a msg dbOk"
| "applyOp (EvQr a dataUrl dbOk) s = on_qr s a dataUrl dbOk"
| "applyOp (EvReady a phone dbOk) s = on_ready s a phone dbOk"
| "applyOp (EvAuthenticated a) s = on_authenticated s a"
| "applyOp (EvAuthFailure a msg dbOk) s = on_auth_failure s a msg dbOk"
| "applyOp (EvDisconnected a reason dbOk) s = on_disconnected s a reason dbOk"
| "applyOp (DeleteAccount a destroy dbOk) s = snd (deleteAccount s a destroy dbOk)"
| "applyOp (ReconnectStart a fsOk dbOk) s = snd (reconnectAccount_start s a fsOk dbOk)"
| "applyOp (ReconnectInitFailed a dbOk) s = snd (reconnectAccount_catch s a dbOk)"
| "applyOp (SendMessage now outcome a number message options) s =
     snd (sendMessage s now outcome a number message options)"

definition runOps :: "lifecycleOp list \<Rightarrow> world \<Rightarrow> world" where
  "runOps ops s = fold applyOp ops s"

text \<open>\<open>getAccountStatus(accountId)\<close>; \<open>None\<close> is \<open>undefined\<close>.\<close>

definition getAccountStatus :: "world \<Rightarrow> accountId \<Rightarrow> string option" where
  "getAccountStatus s accountId = Map_get (accountStatus s) accountId"

text \<open>The status strings the manager writes.\<close>

definition knownStatuses :: "string list" where
  "knownStatuses =
     [''initializing'', ''qr_ready'', ''ready'', ''auth_failed'', ''disconnected'', ''failed'']"

section \<open>The webhook table and its query cache (\<open>config/database.js\<close>)\<close>

text \<open>\<open>String.prototype.startsWith\<close> and \<open>String.prototype.includes\<close> (as \<open>str_includes\<close>).\<close>

definition startsWith :: "string \<Rightarrow> string \<Rightarrow> bool" where
  "startsWith s p = (take (length p) s = p)"


definition CACHE_TTL :: int where
  "CACHE_TTL = 60000"

text \<open>
  \<open>db.getWebhooks(accountId)\<close>: the cached rows when they are younger than
  \<open>CACHE_TTL\<close>, otherwise the rows of the account read from the table (\<open>ok\<close>: the
  query succeeds) and stored in the cache with the time \<open>now\<close>.
\<close>

definition getWebhooks ::
  "world \<Rightarrow> int \<Rightarrow> bool \<Rightarrow> accountId \<Rightarrow> (error + webhook list) \<times> world" where
  "getWebhooks s now ok accountId =
     (let cacheKey = ''webhooks_'' @ accountId;
          fresh = (case Map_get (queryCache s) cacheKey of
                     None \<Rightarrow> None
                   | Some cachedData \<Rightarrow>
                       if snd cachedData > now - CACHE_TTL then Some (fst cachedData) else None)
      in case fresh of
           Some data \<Rightarrow> (Inr data, s)
         | None \<Rightarrow>
             if \<not> ok then (Inl StoreError, s)
             else
               (let data = filter (\<lambda>w. wh_account_id w = accountId) (dbWebhooks s)
                in (Inr data, s\<lparr>queryCache := Map_set (queryCache s) cacheKey (data, now)\<rparr>)))"

text \<open>
  \<open>db.getWebhook(id)\<close> ends in \<open>.single()\<close>, which reports an error when no row
  matches; the result type keeps the \<open>null\<close> the callers test for.
\<close>

definition getWebhook :: "world \<Rightarrow> bool \<Rightarrow> string \<Rightarrow> error + webhook option" where
  "getWebhook s ok webhookId =
     (if \<not> ok then Inl StoreError
      else case find (\<lambda>w. wh_id w = webhookId) (dbWebhooks s) of
             None \<Rightarrow> Inl StoreError
           | Some w \<Rightarrow> Inr (Some w))"

text \<open>\<open>db.createWebhook\<close>, \<open>db.updateWebhook\<close> (of the field \<open>is_active\<close>) and
  \<open>db.deleteWebhook\<close>; each drops the account's entry of the query cache. \<open>None\<close> is
  the thrown error. In \<open>deleteWebhook\<close>, \<open>fetchOk\<close> is the first read of the row
  (its failure is swallowed) and \<open>ok\<close> the deletion, retries included.\<close>

definition createWebhook :: "bool \<Rightarrow> webhook \<Rightarrow> world \<Rightarrow> (webhook \<times> world) option" where
  "createWebhook ok webhookData s =
     (if \<not> ok then None
      else
        (let s = s\<lparr>dbWebhooks := webhookData # dbWebhooks s\<rparr>;
             s = (if wh_account_id webhookData \<noteq> []
                  then s\<lparr>queryCache :=
                          Map_delete (queryCache s) (''webhooks_'' @ wh_account_id webhookData)\<rparr>
                  else s)
         in Some (webhookData, s)))"

definition updateWebhook ::
  "bool \<Rightarrow> string \<Rightarrow> bool \<Rightarrow> world \<Rightarrow> (webhook option \<times> world) option" where
  "updateWebhook ok webhookId active s =
     (if \<not> ok then None
      else
        (let s = s\<lparr>dbWebhooks :=
                     map (\<lambda>w. if wh_id w = webhookId then w\<lparr>wh_is_active := active\<rparr> else w)
                         (dbWebhooks s)\<rparr>;
             updated = find (\<lambda>w. wh_id w = webhookId) (dbWebhooks s);
             s = (case updated of
                    None \<Rightarrow> s
                  | Some w \<Rightarrow>
                      if wh_account_id w \<noteq> []
                      then s\<lparr>queryCache :=
                              Map_delete (queryCache s) (''webhooks_'' @ wh_account_id w)\<rparr>
                      else s)
         in Some (updated, s)))"

definition deleteWebhook :: "bool \<Rightarrow> bool \<Rightarrow> string \<Rightarrow> world \<Rightarrow> world option" where
  "deleteWebhook fetchOk ok webhookId s =
     (let webhookAccountId =
            (if fetchOk then map_option wh_account_id (find (\<lambda>w. wh_id w = webhookId) (dbWebhooks s))
             else None)
      in if \<not> ok then None
         else
           (let s = s\<lparr>dbWebhooks := filter (\<lambda>w. wh_id w \<noteq> webhookId) (dbWebhooks s)\<rparr>
            in Some (case webhookAccountId of
                       None \<Rightarrow> s
                     | Some a \<Rightarrow>
                         if a \<noteq> []
                         then s\<lparr>queryCache := Map_delete (queryCache s) (''webhooks_'' @ a)\<rparr>
                         else s)))"

section \<open>Webhook fan-out: \<open>sendToWebhooks\<close>\<close>

text \<open>
  The fan-out is modelled in steps, so that the posts in flight can settle in any order.
  How \<open>axios.post\<close> settles is an input of the model, not computed by it: \<open>Inr status\<close>
  when the promise resolves with a response of that status, \<open>Inl msg\<close> when it rejects
  with an error of that message. The program passes no \<open>validateStatus\<close>, so which
  responses resolve is the library's default.
\<close>














section \<open>The webhook routes and the secret cache (\<open>index.js\<close>)\<close>

text \<open>
  \<open>Map.prototype.set\<close> has two parameters; \<open>webhookSecretCache\<close> is a plain \<open>Map\<close>, so
  the third argument of \<open>webhookSecretCache.set(cacheKey, value, 300000)\<close> is evaluated
  and dropped.
\<close>

definition Map_set3 :: "('k, 'v) jsmap \<Rightarrow> 'k \<Rightarrow> 'v \<Rightarrow> int \<Rightarrow> ('k, 'v) jsmap" where
  "Map_set3 m k v extra = Map_set m k v"

text \<open>The hourly \<open>setInterval\<close> callback.\<close>

definition clearSecretCache :: "world \<Rightarrow> world" where
  "clearSecretCache s = s\<lparr>webhookSecretCache := []\<rparr>"

text \<open>
  The body of \<open>POST /api/webhooks\<close> behind \<open>requireAuth\<close>. The result is the HTTP
  status of an error response, or the body of the success response. \<open>is_active\<close> is
  \<open>None\<close> when the request leaves the field out.
\<close>

definition post_webhooks ::
  "world \<Rightarrow> string \<Rightarrow> bool \<Rightarrow> accountId \<Rightarrow> string \<Rightarrow> string \<Rightarrow> bool option
     \<Rightarrow> (nat + webhook) \<times> world" where
  "post_webhooks s newId dbOk account_id url secret is_active =
     (if account_id = [] \<or> url = [] then (Inl 400, s)
      else
        (let webhookData = \<lparr>wh_id = newId, wh_account_id = account_id, wh_url = url,
                            wh_secret = secret, wh_is_active = (is_active \<noteq> Some False)\<rparr>
         in case createWebhook dbOk webhookData s of
              None \<Rightarrow> (Inl 500, s)
            | Some (webhook, s') \<Rightarrow> (Inr webhook, s')))"

text \<open>The body of \<open>PATCH /api/webhooks/:id/toggle\<close>.\<close>

definition patch_webhooks_toggle ::
  "world \<Rightarrow> bool \<Rightarrow> bool \<Rightarrow> string \<Rightarrow> (nat + webhook option) \<times> world" where
  "patch_webhooks_toggle s getOk updateOk webhookId =
     (case getWebhook s getOk webhookId of
        Inl e \<Rightarrow> (Inl 500, s)
      | Inr None \<Rightarrow> (Inl 404, s)
      | Inr (Some webhook) \<Rightarrow>
          (case updateWebhook updateOk webhookId (\<not> wh_is_active webhook) s of
             None \<Rightarrow> (Inl 500, s)
           | Some (updatedWebhook, s') \<Rightarrow> (Inr updatedWebhook, s')))"

text \<open>
  The loop of the delete route over \<open>webhookSecretCache.keys()\<close>: every key that starts
  with \<open>webhook_<accountId>_\<close> is deleted.
\<close>

fun invalidateSecrets ::
  "string \<Rightarrow> string list \<Rightarrow> (string, webhook option) jsmap \<Rightarrow> (string, webhook option) jsmap" where
  "invalidateSecrets prefix [] cache = cache"
| "invalidateSecrets prefix (key # keys) cache =
     invalidateSecrets prefix keys
       (if startsWith key prefix then Map_delete cache key else cache)"

text \<open>The body of \<open>DELETE /api/webhooks/:id\<close>.\<close>

definition delete_webhooks ::
  "world \<Rightarrow> bool \<Rightarrow> bool \<Rightarrow> bool \<Rightarrow> string \<Rightarrow> (nat + unit) \<times> world" where
  "delete_webhooks s getOk fetchOk deleteOk webhookId =
     (case getWebhook s getOk webhookId of
        Inl e \<Rightarrow> (Inl 500, s)
      | Inr None \<Rightarrow> (Inl 404, s)
      | Inr (Some existing) \<Rightarrow>
          (case deleteWebhook fetchOk deleteOk webhookId s of
             None \<Rightarrow> (Inl 500, s)
           | Some s' \<Rightarrow>
               (Inr (),
                s'\<lparr>webhookSecretCache :=
                     invalidateSecrets (''webhook_'' @ wh_account_id existing @ ''_'')
                       (Map_keys (webhookSecretCache s')) (webhookSecretCache s')\<rparr>)))"

text \<open>
  \<open>POST /api/webhook-reply\<close> up to the decision on the secret: the HTTP status of the
  refusal (400, 401, or 500 when the store fails), or the webhook that validates the
  request, after which the route goes on to send. A cached value is the webhook found,
  or \<open>None\<close> for the cached \<open>false\<close>. The route never reads a clock for this cache.
\<close>

definition secretCacheKey :: "accountId \<Rightarrow> string \<Rightarrow> string" where
  "secretCacheKey account_id webhook_secret = ''webhook_'' @ account_id @ ''_'' @ webhook_secret"

definition webhook_reply_auth ::
  "world \<Rightarrow> int \<Rightarrow> bool \<Rightarrow> accountId \<Rightarrow> string \<Rightarrow> string \<Rightarrow> (nat + webhook) \<times> world" where
  "webhook_reply_auth s now dbOk account_id number webhook_secret =
     (if account_id = [] \<or> number = [] \<or> webhook_secret = [] then (Inl 400, s)
      else
        (let cacheKey = secretCacheKey account_id webhook_secret
         in case Map_get (webhookSecretCache s) cacheKey of
              Some validWebhook \<Rightarrow>
                (case validWebhook of
                   None \<Rightarrow> (Inl 401, s)
                 | Some w \<Rightarrow> (Inr w, s))
            | None \<Rightarrow>
                (case getWebhooks s now dbOk account_id of
                   (Inl e, s1) \<Rightarrow> (Inl 500, s1)
                 | (Inr webhooks, s1) \<Rightarrow>
                     (let validWebhook =
                            find (\<lambda>webhook. wh_secret webhook = webhook_secret \<and>
                                             wh_is_active webhook) webhooks;
                          s2 = s1\<lparr>webhookSecretCache :=
                                   Map_set3 (webhookSecretCache s1) cacheKey validWebhook 300000\<rparr>
                      in case validWebhook of
                           None \<Rightarrow> (Inl 401, s2)
                         | Some w \<Rightarrow> (Inr w, s2)))))"

section \<open>Example states\<close>

text \<open>
  One account \<open>A\<close> with an open page, in the state \<open>ready\<close>, and the given items in
  its queue.
\<close>

definition readyWorld :: "queueItem list \<Rightarrow> world" where
  "readyWorld q =
     initialWorld\<lparr>clients := [(''A'', \<lparr>pupPage = Some False\<rparr>)],
                  accountStatus := [(''A'', ''ready'')],
                  messageQueues := Some [(''A'', q)]\<rparr>"

definition pendingItem :: queueItem where
  "pendingItem = \<lparr>qi_number = ''919876543210@c.us'', qi_message = ''earlier'',
                   qi_options = [], qi_timestamp = 1\<rparr>"

definition sentResult :: sendResult where
  "sentResult = \<lparr>res_id = ''true_919876543210@c.us_3EB0'', res_from = ''911234567890@c.us'',
                  res_to = ''919876543210@c.us'', res_timestamp = 1700000000\<rparr>"

text \<open>The account \<open>A\<close> as above, with its row in the table of accounts.\<close>

definition registeredWorld :: world where
  "registeredWorld =
     (readyWorld [])\<lparr>dbAccounts := [(''A'', [(''id'', JStr ''A''), (''name'', JStr ''sales''),
                                               (''status'', JStr ''ready'')])]\<rparr>"

text \<open>
  Three webhooks of the account \<open>A\<close>, the third one switched off, one of another
  account, and an inbound message.
\<close>

definition hookCrm :: webhook where
  "hookCrm = \<lparr>wh_id = ''w1'', wh_account_id = ''A'', wh_url = ''https://crm.example.com/in'',
               wh_secret = ''s3cr3t'', wh_is_active = True\<rparr>"

definition hookN8n :: webhook where
  "hookN8n = \<lparr>wh_id = ''w2'', wh_account_id = ''A'', wh_url = ''https://n8n.example.com/hook'',
               wh_secret = ''flow'', wh_is_active = True\<rparr>"

definition hookOff :: webhook where
  "hookOff = \<lparr>wh_id = ''w3'', wh_account_id = ''A'', wh_url = ''https://old.example.com/in'',
               wh_secret = ''old'', wh_is_active = False\<rparr>"

definition hookOther :: webhook where
  "hookOther = \<lparr>wh_id = ''w4'', wh_account_id = ''B'', wh_url = ''https://b.example.com/in'',
                 wh_secret = ''bee'', wh_is_active = True\<rparr>"

definition hookWorld :: world where
  "hookWorld = registeredWorld\<lparr>dbWebhooks := [hookCrm, hookN8n, hookOff, hookOther]\<rparr>"


text \<open>
  The state after a first reply request for \<open>A\<close> with the secret of \<open>hookCrm\<close>, made
  at time 0: the rows of the account and the validated secret are cached.
\<close>

definition repliedWorld :: world where
  "repliedWorld =
     hookWorld\<lparr>queryCache := [(''webhooks_A'', ([hookCrm, hookN8n, hookOff], 0))],
               webhookSecretCache := [(''webhook_A_s3cr3t'', Some hookCrm)]\<rparr>"

section \<open>Properties of the normaliser\<close>

lemma filter_isDigit_all: "list_all isDigit (filter isDigit xs)"
  by (induction xs) auto

lemma filter_isDigit_id: "list_all isDigit xs \<Longrightarrow> filter isDigit xs = xs"
  by (induction xs) auto

lemma list_all_dropWhile: "list_all P xs \<Longrightarrow> list_all P (dropWhile Q xs)"
  by (induction xs) auto

lemma suffix_no_digit: "filter isDigit ''@c.us'' = []"
  by (simp add: isDigit_def)

text \<open>
  An address is a run of digits without a leading zero, followed by the suffix.
\<close>

lemma formatPhoneNumber_shape:
  "\<exists>c. formatPhoneNumber n = c @ ''@c.us'' \<and> list_all isDigit c \<and>
       dropWhile (\<lambda>x. x = CHR ''0'') c = c"
proof -
  let ?d = "filter isDigit n"
  let ?e = "if \<not> test_digits10 ?d then ''91'' @ ?d else ?d"
  let ?c = "dropWhile (\<lambda>x. x = CHR ''0'') ?e"
  have "list_all isDigit ?e"
    using filter_isDigit_all [of n] by (simp add: isDigit_def)
  then have "list_all isDigit ?c" by (rule list_all_dropWhile)
  moreover have "dropWhile (\<lambda>x. x = CHR ''0'') ?c = ?c" by (rule dropWhile_idem)
  moreover have "formatPhoneNumber n = ?c @ ''@c.us''"
    by (simp add: formatPhoneNumber_def Let_def)
  ultimately show ?thesis by blast
qed

text \<open>Formatting an address: the suffix goes, and 91 is put in front of a short run.\<close>

lemma formatPhoneNumber_again:
  assumes "list_all isDigit c" and "dropWhile (\<lambda>x. x = CHR ''0'') c = c"
  shows "formatPhoneNumber (c @ ''@c.us'') =
           (if 10 \<le> length c then c @ ''@c.us'' else ''91'' @ c @ ''@c.us'')"
proof -
  have d: "filter isDigit (c @ ''@c.us'') = c"
    using assms(1) by (simp add: filter_isDigit_id suffix_no_digit del: filter.simps)
  show ?thesis
    unfolding formatPhoneNumber_def Let_def d
    using assms by (simp add: test_digits10_def)
qed

text \<open>
  C5 (evaluation of the code): \<open>formatPhoneNumber\<close> leaves the ten-digit number
  \<open>9876543210\<close> without the prefix 91, so its address differs from the one of
  \<open>+919876543210\<close>.
\<close>

theorem formatPhoneNumber_local_differs:
  "formatPhoneNumber ''9876543210'' = ''9876543210@c.us'' \<and>
   formatPhoneNumber ''+919876543210'' = ''919876543210@c.us'' \<and>
   formatPhoneNumber ''9876543210'' \<noteq> formatPhoneNumber ''+919876543210''"
  by (simp add: formatPhoneNumber_def isDigit_def test_digits10_def)

text \<open>
  C6, as stated, fails: the address of \<open>12345\<close> is \<open>9112345@c.us\<close>, and formatting
  that address gives \<open>919112345@c.us\<close>.
\<close>

theorem formatPhoneNumber_not_idempotent:
  "formatPhoneNumber ''12345'' = ''9112345@c.us'' \<and>
   formatPhoneNumber (formatPhoneNumber ''12345'') = ''919112345@c.us'' \<and>
   formatPhoneNumber (formatPhoneNumber ''12345'') \<noteq> formatPhoneNumber ''12345''"
  by (simp add: formatPhoneNumber_def isDigit_def test_digits10_def)

text \<open>
  C6, amended: applying \<open>formatPhoneNumber\<close> to its own output returns that output
  unchanged exactly when the output carries at least ten digits; an output with fewer
  digits gets 91 in front once more.
\<close>

theorem formatPhoneNumber_idempotent_iff:
  "formatPhoneNumber (formatPhoneNumber n) = formatPhoneNumber n
     \<longleftrightarrow> 10 \<le> length (filter isDigit (formatPhoneNumber n))"
proof -
  obtain c where c: "formatPhoneNumber n = c @ ''@c.us''" "list_all isDigit c"
      "dropWhile (\<lambda>x. x = CHR ''0'') c = c"
    using formatPhoneNumber_shape by blast
  have d: "filter isDigit (c @ ''@c.us'') = c"
    using c(2) by (simp add: filter_isDigit_id suffix_no_digit del: filter.simps)
  show ?thesis
    unfolding c(1) d formatPhoneNumber_again [OF c(2) c(3)] by auto
qed

text \<open>The amended C6 at \<open>+919876543210\<close>, whose address has twelve digits.\<close>

theorem formatPhoneNumber_idempotent_iff_witness:
  "10 \<le> length (filter isDigit (formatPhoneNumber ''+919876543210'')) \<and>
   formatPhoneNumber (formatPhoneNumber ''+919876543210'') = formatPhoneNumber ''+919876543210''"
proof -
  have h: "10 \<le> length (filter isDigit (formatPhoneNumber ''+919876543210''))"
    by (simp add: formatPhoneNumber_def isDigit_def test_digits10_def)
  from h formatPhoneNumber_idempotent_iff [of "''+919876543210''"] show ?thesis by blast
qed

subsection \<open>The memoised normaliser\<close>

lemma Map_get_mem: "Map_get m k = Some v \<Longrightarrow> (k, v) \<in> set m"
  by (simp add: Map_get_def map_of_SomeD)

lemma set_Map_delete: "set (Map_delete m k) \<subseteq> set m"
  by (auto simp: Map_delete_def)

lemma set_Map_set: "set (Map_set m k v) \<subseteq> insert (k, v) (set m)"
  by (induction m k v rule: Map_set.induct) auto

lemma set_evict:
  "set (if Map_size m > 1000
        then (case Map_keys m of [] \<Rightarrow> m | oldestKey # _ \<Rightarrow> Map_delete m oldestKey)
        else m) \<subseteq> set m"
  using set_Map_delete [of m] by (auto split: list.splits)

text \<open>
  The invariant of the cache: every entry holds the address of its key. A call answers
  with the address and keeps the invariant, whether it hits, misses or evicts.
\<close>

lemma getFormattedNumber_sound:
  assumes inv: "\<forall>(k, v) \<in> set (case c of None \<Rightarrow> [] | Some m \<Rightarrow> m). v = formatPhoneNumber k"
  shows "fst (getFormattedNumber c n) = formatPhoneNumber n"
    and "\<forall>(k, v) \<in> set (case snd (getFormattedNumber c n) of None \<Rightarrow> [] | Some m \<Rightarrow> m).
           v = formatPhoneNumber k"
proof -
  let ?m = "case c of None \<Rightarrow> [] | Some m \<Rightarrow> m"
  show "fst (getFormattedNumber c n) = formatPhoneNumber n"
  proof (cases "Map_get ?m n")
    case None
    then show ?thesis by (simp add: getFormattedNumber_def Let_def)
  next
    case (Some v)
    then have "(n, v) \<in> set ?m" by (rule Map_get_mem)
    with inv have "v = formatPhoneNumber n" by blast
    with Some show ?thesis by (simp add: getFormattedNumber_def Let_def)
  qed
  show "\<forall>(k, v) \<in> set (case snd (getFormattedNumber c n) of None \<Rightarrow> [] | Some m \<Rightarrow> m).
           v = formatPhoneNumber k"
  proof (cases "Map_get ?m n")
    case (Some v)
    with inv show ?thesis by (simp add: getFormattedNumber_def Let_def)
  next
    case None
    let ?e = "if Map_size ?m > 1000
              then (case Map_keys ?m of [] \<Rightarrow> ?m | oldestKey # _ \<Rightarrow> Map_delete ?m oldestKey)
              else ?m"
    have "set ?e \<subseteq> set ?m"
      by (rule set_evict)
    then have "set (Map_set ?e n (formatPhoneNumber n)) \<subseteq> insert (n, formatPhoneNumber n) (set ?m)"
      using set_Map_set [of ?e n "formatPhoneNumber n"] by blast
    moreover have "snd (getFormattedNumber c n) = Some (Map_set ?e n (formatPhoneNumber n))"
      using None by (simp add: getFormattedNumber_def Let_def)
    ultimately show ?thesis using inv by auto
  qed
qed

lemma fold_getFormattedNumber_sound:
  "\<forall>(k, v) \<in> set (case c of None \<Rightarrow> [] | Some m \<Rightarrow> m). v = formatPhoneNumber k \<Longrightarrow>
   \<forall>(k, v) \<in> set (case fold (\<lambda>n c. snd (getFormattedNumber c n)) numbers c of
                      None \<Rightarrow> [] | Some m \<Rightarrow> m). v = formatPhoneNumber k"
proof (induction numbers arbitrary: c)
  case Nil
  then show ?case by simp
next
  case (Cons n numbers)
  from getFormattedNumber_sound(2) [OF Cons.prems]
  have "\<forall>(k, v) \<in> set (case snd (getFormattedNumber c n) of None \<Rightarrow> [] | Some m \<Rightarrow> m).
           v = formatPhoneNumber k" .
  from Cons.IH [OF this] show ?case by simp
qed

text \<open>
  C10: whatever calls of \<open>getFormattedNumber\<close> have filled the cache since it was
  created, the next call returns exactly \<open>formatPhoneNumber number\<close>.
\<close>

theorem getFormattedNumber_refines:
  "fst (getFormattedNumber (cacheAfter numbers) number) = formatPhoneNumber number"
proof -
  have "\<forall>(k, v) \<in> set (case cacheAfter numbers of None \<Rightarrow> [] | Some m \<Rightarrow> m).
          v = formatPhoneNumber k"
    unfolding cacheAfter_def by (rule fold_getFormattedNumber_sound) simp
  then show ?thesis by (rule getFormattedNumber_sound(1))
qed

section \<open>Properties of the outbound queue\<close>

lemma Map_get_Nil: "Map_get [] k = None"
  by (simp add: Map_get_def)

lemma Map_get_Map_set: "Map_get (Map_set m k v) k' = (if k' = k then Some v else Map_get m k')"
  by (induction m k v rule: Map_set.induct) (auto simp: Map_get_def)

lemma queueOf_setQueue: "queueOf (setQueue a q s) a' = (if a' = a then q else queueOf s a')"
  by (cases "messageQueues s")
     (simp_all add: queueOf_def setQueue_def Map_get_Map_set Map_get_Nil del: Map_set.simps)

lemma queueOf_other_fields:
  "queueOf (numberFormatCache_update f s) a = queueOf s a"
  "queueOf (transportCalls_update g s) a = queueOf s a"
  by (simp_all add: queueOf_def)

lemma queueOf_logMessage: "queueOf (logMessage r s) a = queueOf s a"
  by (simp add: queueOf_def logMessage_def)

lemma setQueue_fields:
  "clients (setQueue a q s) = clients s"
  "accountStatus (setQueue a q s) = accountStatus s"
  "numberFormatCache (setQueue a q s) = numberFormatCache s"
  "transportCalls (setQueue a q s) = transportCalls s"
  "logged (setQueue a q s) = logged s"
  by (simp_all add: setQueue_def)

lemma findIndex_lt: "findIndex P xs = Some i \<Longrightarrow> i < length xs"
  by (induction xs arbitrary: i) (auto split: if_splits)

lemma findIndex_None: "findIndex P xs = None \<Longrightarrow> x \<in> set xs \<Longrightarrow> \<not> P x"
  by (induction xs) (auto split: if_splits)

lemma length_splice1: "i < length xs \<Longrightarrow> length (splice1 i xs) = length xs - 1"
  by (simp add: splice1_def)

text \<open>
  A ready account with an open page and at most 20 queued items: the item is pushed
  behind the others and the transport is called, with nothing logged yet.
\<close>

lemma sendMessage_admit_ready:
  assumes "Map_get (clients s) a = Some c" and "pupPage c = Some False"
    and "Map_get (accountStatus s) a = Some ''ready''"
    and "length (queueOf s a) \<le> 20"
  shows "\<exists>qi s1. sendMessage_admit s now a n m opts = (Inr qi, s1) \<and>
           qi = \<lparr>qi_number = fst (getFormattedNumber (numberFormatCache s) n), qi_message = m,
                 qi_options = opts, qi_timestamp = now\<rparr> \<and>
           queueOf s1 a = queueOf s a @ [qi] \<and>
           transportCalls s1 = transportCalls s @ [(a, qi_number qi, m)] \<and>
           logged s1 = logged s"
proof -
  let ?s = "setQueue a (queueOf s a) s"
  have q: "queueOf ?s a = queueOf s a" by (simp add: queueOf_setQueue)
  note f = setQueue_fields [of a "queueOf s a" s]
  obtain fn cache where g: "getFormattedNumber (numberFormatCache s) n = (fn, cache)"
    by (cases "getFormattedNumber (numberFormatCache s) n")
  show ?thesis
    unfolding sendMessage_admit_def Let_def q f
    using assms by (simp add: g queueOf_setQueue queueOf_other_fields setQueue_fields)
qed

text \<open>A rejected send: the failure is logged and thrown; the queue is not touched.\<close>

lemma sendMessage_settle_rejected:
  "sendMessage_settle s a n m qi (Inl msg) =
     (Inl (TransportError msg),
      logMessage
        [(''account_id'', JStr a), (''direction'', JStr ''outgoing''),
         (''recipient'', JStr n), (''message'', JStr m),
         (''status'', JStr ''failed''), (''error_message'', JStr msg)] s)"
  by (simp add: sendMessage_settle_def sendFailed_def)

text \<open>
  A resolved send, in whatever state the completion finds the queue: as long as the item
  is still queued, one entry is spliced out.
\<close>

lemma sendMessage_settle_resolved:
  assumes "qi \<in> set (queueOf s a)" and "qi_message qi = m"
  shows "length (queueOf (snd (sendMessage_settle s a n m qi (Inr r))) a) = length (queueOf s a) - 1"
    and "\<exists>body. fst (sendMessage_settle s a n m qi (Inr r)) = Inr body"
    and "transportCalls (snd (sendMessage_settle s a n m qi (Inr r))) = transportCalls s"
proof -
  let ?P = "\<lambda>item. qi_number item = qi_number qi \<and> qi_message item = m \<and>
                    qi_timestamp item = qi_timestamp qi"
  obtain i where i: "findIndex ?P (queueOf s a) = Some i"
    using findIndex_None [of ?P "queueOf s a" qi] assms by (cases "findIndex ?P (queueOf s a)") auto
  then have "i < length (queueOf s a)" by (rule findIndex_lt)
  then show "length (queueOf (snd (sendMessage_settle s a n m qi (Inr r))) a) = length (queueOf s a) - 1"
    by (simp add: sendMessage_settle_def Let_def i queueOf_logMessage queueOf_setQueue length_splice1)
  show "\<exists>body. fst (sendMessage_settle s a n m qi (Inr r)) = Inr body"
    by (simp add: sendMessage_settle_def Let_def)
  show "transportCalls (snd (sendMessage_settle s a n m qi (Inr r))) = transportCalls s"
    by (simp add: sendMessage_settle_def Let_def i logMessage_def setQueue_fields)
qed

text \<open>An admitted item reaches the transport, and the call does not end in \<open>QueueFull\<close>.\<close>

lemma sendMessage_admitted_calls_transport:
  assumes "Map_get (clients s) a = Some c" and "pupPage c = Some False"
    and "Map_get (accountStatus s) a = Some ''ready''"
    and "length (queueOf s a) \<le> 20"
  shows "fst (sendMessage s now outcome a n m opts) \<noteq> Inl QueueFull"
    and "transportCalls (snd (sendMessage s now outcome a n m opts)) =
           transportCalls s @ [(a, fst (getFormattedNumber (numberFormatCache s) n), m)]"
proof -
  obtain qi s1 where ad: "sendMessage_admit s now a n m opts = (Inr qi, s1)"
      "qi_message qi = m" "queueOf s1 a = queueOf s a @ [qi]"
      "qi_number qi = fst (getFormattedNumber (numberFormatCache s) n)"
      "transportCalls s1 = transportCalls s @ [(a, qi_number qi, m)]"
    using sendMessage_admit_ready [OF assms, of now n m opts] by auto
  have mem: "qi \<in> set (queueOf s1 a)" using ad(3) by simp
  show "fst (sendMessage s now outcome a n m opts) \<noteq> Inl QueueFull"
  proof (cases outcome)
    case (Inl msg)
    then show ?thesis by (simp add: sendMessage_def ad(1) sendMessage_settle_rejected)
  next
    case (Inr r)
    with sendMessage_settle_resolved(2) [OF mem ad(2), of n r]
    show ?thesis by (auto simp: sendMessage_def ad(1))
  qed
  show "transportCalls (snd (sendMessage s now outcome a n m opts)) =
           transportCalls s @ [(a, fst (getFormattedNumber (numberFormatCache s) n), m)]"
  proof (cases outcome)
    case (Inl msg)
    then show ?thesis
      by (simp add: sendMessage_def ad(1) ad(4) ad(5) sendMessage_settle_rejected logMessage_def)
  next
    case (Inr r)
    with sendMessage_settle_resolved(3) [OF mem ad(2), of n r]
    show ?thesis by (simp add: sendMessage_def ad(1) ad(4) ad(5))
  qed
qed

lemma readyWorld_facts:
  "Map_get (clients (readyWorld q)) ''A'' = Some \<lparr>pupPage = Some False\<rparr>"
  "Map_get (accountStatus (readyWorld q)) ''A'' = Some ''ready''"
  "queueOf (readyWorld q) ''A'' = q"
  "transportCalls (readyWorld q) = []"
  "logged (readyWorld q) = []"
  "numberFormatCache (readyWorld q) = None"
  by (simp_all add: readyWorld_def initialWorld_def Map_get_def queueOf_def)

text \<open>
  C1 (what the code does): for a ready account with at most 20 queued items, a send
  that resolves leaves the queue as deep as it was, while a send that the transport
  rejects throws the transport's error and leaves the queue one item deeper: the item
  stays in the queue.
\<close>

theorem sendMessage_queue_depth:
  assumes "Map_get (clients s) a = Some c" and "pupPage c = Some False"
    and "Map_get (accountStatus s) a = Some ''ready''"
    and "length (queueOf s a) \<le> 20"
  shows "length (queueOf (snd (sendMessage s now (Inr r) a n m opts)) a) = length (queueOf s a) \<and>
         fst (sendMessage s now (Inl msg) a n m opts) = Inl (TransportError msg) \<and>
         length (queueOf (snd (sendMessage s now (Inl msg) a n m opts)) a) = length (queueOf s a) + 1"
proof -
  obtain qi s1 where ad: "sendMessage_admit s now a n m opts = (Inr qi, s1)"
      "qi_message qi = m" "queueOf s1 a = queueOf s a @ [qi]"
    using sendMessage_admit_ready [OF assms, of now n m opts] by auto
  have "qi \<in> set (queueOf s1 a)" using ad(3) by simp
  from sendMessage_settle_resolved(1) [OF this ad(2), of n r]
  have "length (queueOf (snd (sendMessage s now (Inr r) a n m opts)) a) = length (queueOf s a)"
    by (simp add: sendMessage_def ad)
  moreover have "fst (sendMessage s now (Inl msg) a n m opts) = Inl (TransportError msg)"
    by (simp add: sendMessage_def ad(1) sendMessage_settle_rejected)
  moreover have "length (queueOf (snd (sendMessage s now (Inl msg) a n m opts)) a) = length (queueOf s a) + 1"
    by (simp add: sendMessage_def ad(1) ad(3) sendMessage_settle_rejected queueOf_logMessage)
  ultimately show ?thesis by blast
qed

text \<open>
  C1 at the ready account \<open>A\<close> with an empty queue: depth 0 after the resolved send,
  depth 1 after the rejected one.
\<close>

theorem sendMessage_queue_depth_witness:
  "length (queueOf (readyWorld []) ''A'') = 0 \<and>
   length (queueOf (snd (sendMessage (readyWorld []) 1000 (Inr sentResult)
                           ''A'' ''+919876543210'' ''hello'' [])) ''A'') = 0 \<and>
   fst (sendMessage (readyWorld []) 1000 (Inl ''Evaluation failed'')
          ''A'' ''+919876543210'' ''hello'' []) = Inl (TransportError ''Evaluation failed'') \<and>
   length (queueOf (snd (sendMessage (readyWorld []) 1000 (Inl ''Evaluation failed'')
                           ''A'' ''+919876543210'' ''hello'' [])) ''A'') = 1"
  using sendMessage_queue_depth
          [of "readyWorld []" "''A''" "\<lparr>pupPage = Some False\<rparr>" 1000 sentResult
              "''+919876543210''" "''hello''" "[]" "''Evaluation failed''"]
  by (simp add: readyWorld_facts)

text \<open>
  C4, as stated, fails: with exactly 20 items queued for the ready account \<open>A\<close> the
  call is not refused with \<open>QueueFull\<close>, and the transport is called.
\<close>

theorem sendMessage_depth_20_admitted:
  "length (queueOf (readyWorld (replicate 20 pendingItem)) ''A'') = 20 \<and>
   fst (sendMessage (readyWorld (replicate 20 pendingItem)) 1000 (Inr sentResult)
          ''A'' ''+919876543210'' ''hello'' []) \<noteq> Inl QueueFull \<and>
   transportCalls (snd (sendMessage (readyWorld (replicate 20 pendingItem)) 1000 (Inr sentResult)
                          ''A'' ''+919876543210'' ''hello'' []))
     = [(''A'', ''919876543210@c.us'', ''hello'')]"
proof -
  have d: "length (queueOf (readyWorld (replicate 20 pendingItem)) ''A'') \<le> 20"
    by (simp add: readyWorld_facts)
  have g: "fst (getFormattedNumber None ''+919876543210'') = ''919876543210@c.us''"
    by (simp add: getFormattedNumber_def Map_get_def Let_def formatPhoneNumber_def isDigit_def
          test_digits10_def)
  from sendMessage_admitted_calls_transport
         [OF readyWorld_facts(1) _ readyWorld_facts(2) d, of 1000 "Inr sentResult"
            "''+919876543210''" "''hello''" "[]"]
  show ?thesis by (simp add: readyWorld_facts g)
qed

text \<open>With at most 20 items queued the call never ends in \<open>QueueFull\<close>.\<close>

lemma sendMessage_not_full:
  assumes "length (queueOf s a) \<le> 20"
  shows "fst (sendMessage s now outcome a n m opts) \<noteq> Inl QueueFull"
proof -
  let ?s = "setQueue a (queueOf s a) s"
  have q: "queueOf ?s a = queueOf s a" by (simp add: queueOf_setQueue)
  have nf: "\<not> 20 < length (queueOf s a)" using assms by simp
  show ?thesis
    unfolding sendMessage_def sendMessage_admit_def Let_def q
    using nf
    by (auto simp: sendMessage_settle_def sendFailed_def Let_def
        split: prod.splits sum.splits option.splits if_splits)
qed

text \<open>
  Unless the account is ready and its client has an open page, the transport is not
  called.
\<close>

lemma sendMessage_not_admitted:
  assumes "\<not> (\<exists>c. Map_get (clients s) a = Some c \<and> pupPage c = Some False \<and>
               Map_get (accountStatus s) a = Some ''ready'')"
  shows "transportCalls (snd (sendMessage s now outcome a n m opts)) = transportCalls s"
proof -
  let ?s = "setQueue a (queueOf s a) s"
  note f = setQueue_fields [of a "queueOf s a" s]
  show ?thesis
  proof (cases "Map_get (clients s) a")
    case None
    then show ?thesis
      unfolding sendMessage_def sendMessage_admit_def Let_def f
      by (simp add: sendFailed_def logMessage_def setQueue_fields)
  next
    case (Some c)
    show ?thesis
    proof (cases "Map_get (accountStatus s) a = Some ''ready''")
      case False
      with Some show ?thesis
        unfolding sendMessage_def sendMessage_admit_def Let_def f
        by (simp add: sendFailed_def logMessage_def setQueue_fields)
    next
      case True
      with Some assms have "pupPage c = None \<or> pupPage c = Some True"
        by (cases "pupPage c") auto
      with Some True show ?thesis
        unfolding sendMessage_def sendMessage_admit_def Let_def f
        by (auto simp: sendFailed_def logMessage_def setQueue_fields)
    qed
  qed
qed

text \<open>
  C4, amended: \<open>sendMessage\<close> fails with \<open>QueueFull\<close> exactly when more than 20
  items are queued for the account, and then without calling the transport and without
  logging. With 20 items or fewer, the transport is called, once, when the account is
  ready and its client has an open page; in every other case it is not called.
\<close>

theorem sendMessage_queue_full:
  "(fst (sendMessage s now outcome a n m opts) = Inl QueueFull \<longleftrightarrow> 20 < length (queueOf s a)) \<and>
   (20 < length (queueOf s a) \<longrightarrow>
      transportCalls (snd (sendMessage s now outcome a n m opts)) = transportCalls s \<and>
      logged (snd (sendMessage s now outcome a n m opts)) = logged s) \<and>
   (length (queueOf s a) \<le> 20 \<and> Map_get (clients s) a = Some c \<and> pupPage c = Some False \<and>
    Map_get (accountStatus s) a = Some ''ready'' \<longrightarrow>
      transportCalls (snd (sendMessage s now outcome a n m opts)) =
        transportCalls s @ [(a, fst (getFormattedNumber (numberFormatCache s) n), m)]) \<and>
   (\<not> (\<exists>c'. Map_get (clients s) a = Some c' \<and> pupPage c' = Some False \<and>
              Map_get (accountStatus s) a = Some ''ready'') \<longrightarrow>
      transportCalls (snd (sendMessage s now outcome a n m opts)) = transportCalls s)"
proof -
  let ?s = "setQueue a (queueOf s a) s"
  have q: "queueOf ?s a = queueOf s a" by (simp add: queueOf_setQueue)
  have full: "fst (sendMessage s now outcome a n m opts) = Inl QueueFull \<and>
         transportCalls (snd (sendMessage s now outcome a n m opts)) = transportCalls s \<and>
         logged (snd (sendMessage s now outcome a n m opts)) = logged s"
    if "20 < length (queueOf s a)"
  proof -
    have "sendMessage_admit s now a n m opts = (Inl (Inl QueueFull), ?s)"
      unfolding sendMessage_admit_def Let_def q using that by simp
    then show ?thesis by (simp add: sendMessage_def setQueue_fields)
  qed
  have notfull: "fst (sendMessage s now outcome a n m opts) \<noteq> Inl QueueFull"
    if "\<not> 20 < length (queueOf s a)"
    using that by (intro sendMessage_not_full) simp
  have admitted: "transportCalls (snd (sendMessage s now outcome a n m opts)) =
        transportCalls s @ [(a, fst (getFormattedNumber (numberFormatCache s) n), m)]"
    if "length (queueOf s a) \<le> 20" "Map_get (clients s) a = Some c" "pupPage c = Some False"
       "Map_get (accountStatus s) a = Some ''ready''"
    using sendMessage_admitted_calls_transport(2) [OF that(2) that(3) that(4) that(1)] .
  have refused: "transportCalls (snd (sendMessage s now outcome a n m opts)) = transportCalls s"
    if "\<not> (\<exists>c'. Map_get (clients s) a = Some c' \<and> pupPage c' = Some False \<and>
              Map_get (accountStatus s) a = Some ''ready'')"
    using that by (rule sendMessage_not_admitted)
  from full notfull admitted refused show ?thesis by blast
qed

text \<open>
  The amended C4 at the ready account \<open>A\<close>: refused with 21 items queued, admitted
  with 20; and at an account without a client, where the transport is not called.
\<close>

theorem sendMessage_queue_full_witness:
  "20 < length (queueOf (readyWorld (replicate 21 pendingItem)) ''A'') \<and>
   fst (sendMessage (readyWorld (replicate 21 pendingItem)) 1000 (Inr sentResult)
          ''A'' ''+919876543210'' ''hello'' []) = Inl QueueFull \<and>
   transportCalls (snd (sendMessage (readyWorld (replicate 21 pendingItem)) 1000 (Inr sentResult)
                          ''A'' ''+919876543210'' ''hello'' [])) = [] \<and>
   length (queueOf (readyWorld (replicate 20 pendingItem)) ''A'') \<le> 20 \<and>
   fst (sendMessage (readyWorld (replicate 20 pendingItem)) 1000 (Inl ''Evaluation failed'')
          ''A'' ''+919876543210'' ''hello'' []) \<noteq> Inl QueueFull \<and>
   transportCalls (snd (sendMessage (readyWorld (replicate 20 pendingItem)) 1000
                          (Inl ''Evaluation failed'') ''A'' ''+919876543210'' ''hello'' []))
     = [(''A'', ''919876543210@c.us'', ''hello'')] \<and>
   Map_get (clients initialWorld) ''A'' = None \<and>
   transportCalls (snd (sendMessage initialWorld 1000 (Inr sentResult)
                          ''A'' ''+919876543210'' ''hello'' [])) = []"
proof -
  have g: "fst (getFormattedNumber None ''+919876543210'') = ''919876543210@c.us''"
    by (simp add: getFormattedNumber_def Map_get_def Let_def formatPhoneNumber_def isDigit_def
          test_digits10_def)
  from sendMessage_queue_full
          [of "readyWorld (replicate 21 pendingItem)" 1000 "Inr sentResult" "''A''"
              "''+919876543210''" "''hello''" "[]" "\<lparr>pupPage = Some False\<rparr>"]
  have a: "20 < length (queueOf (readyWorld (replicate 21 pendingItem)) ''A'') \<and>
   fst (sendMessage (readyWorld (replicate 21 pendingItem)) 1000 (Inr sentResult)
          ''A'' ''+919876543210'' ''hello'' []) = Inl QueueFull \<and>
   transportCalls (snd (sendMessage (readyWorld (replicate 21 pendingItem)) 1000 (Inr sentResult)
                          ''A'' ''+919876543210'' ''hello'' [])) = []"
    by (simp add: readyWorld_facts)
  from sendMessage_queue_full
          [of "readyWorld (replicate 20 pendingItem)" 1000 "Inl ''Evaluation failed''" "''A''"
              "''+919876543210''" "''hello''" "[]" "\<lparr>pupPage = Some False\<rparr>"]
  have b: "length (queueOf (readyWorld (replicate 20 pendingItem)) ''A'') \<le> 20 \<and>
   fst (sendMessage (readyWorld (replicate 20 pendingItem)) 1000 (Inl ''Evaluation failed'')
          ''A'' ''+919876543210'' ''hello'' []) \<noteq> Inl QueueFull \<and>
   transportCalls (snd (sendMessage (readyWorld (replicate 20 pendingItem)) 1000
                          (Inl ''Evaluation failed'') ''A'' ''+919876543210'' ''hello'' []))
     = [(''A'', ''919876543210@c.us'', ''hello'')]"
    by (simp add: readyWorld_facts g)
  have n: "Map_get (clients initialWorld) ''A'' = None"
    by (simp add: initialWorld_def Map_get_def)
  have e: "transportCalls initialWorld = []" by (simp add: initialWorld_def)
  from sendMessage_queue_full
          [of initialWorld 1000 "Inr sentResult" "''A''"
              "''+919876543210''" "''hello''" "[]" "\<lparr>pupPage = Some False\<rparr>"] n
  have c: "transportCalls (snd (sendMessage initialWorld 1000 (Inr sentResult)
                          ''A'' ''+919876543210'' ''hello'' [])) = []"
    by (simp add: e)
  from a b n c show ?thesis by simp
qed

section \<open>Properties of the account lifecycle\<close>

lemma Map_get_Map_delete: "Map_get (Map_delete m k) k' = (if k' = k then None else Map_get m k')"
  by (induction m) (auto simp: Map_get_def Map_delete_def)

lemma db_updateAccount_status:
  "db_updateAccount ok a u s = Some s' \<Longrightarrow> accountStatus s' = accountStatus s"
  by (auto simp: db_updateAccount_def split: if_splits option.splits)

lemma setStatus_ok:
  assumes "\<forall>kv \<in> set (accountStatus s). snd kv \<in> set knownStatuses" and "st \<in> set knownStatuses"
  shows "\<forall>kv \<in> set (accountStatus (setStatus a st s)). snd kv \<in> set knownStatuses"
  using assms set_Map_set [of "accountStatus s" a st] by (auto simp: setStatus_def)

lemma accountStatus_sendMessage:
  "accountStatus (snd (sendMessage s now outcome a n m opts)) = accountStatus s"
  by (auto simp: sendMessage_def sendMessage_admit_def sendMessage_settle_def sendFailed_def
      logMessage_def setQueue_fields Let_def split: prod.splits sum.splits option.splits if_splits)

lemma Map_delete_ok:
  "\<forall>kv \<in> set m. P kv \<Longrightarrow> \<forall>kv \<in> set (Map_delete m k). P kv"
  by (simp add: Map_delete_def)

lemma applyOp_statuses:
  assumes inv: "\<forall>kv \<in> set (accountStatus s). snd kv \<in> set knownStatuses"
  shows "\<forall>kv \<in> set (accountStatus (applyOp op s)). snd kv \<in> set knownStatuses"
proof (cases op)
  case (CreateAccount a fsOk dbOk name description)
  have k: "''failed'' \<in> set knownStatuses" "''initializing'' \<in> set knownStatuses"
    by (simp_all add: knownStatuses_def)
  have i: "\<forall>kv \<in> set (accountStatus (setStatus a ''initializing'' s)). snd kv \<in> set knownStatuses"
    by (rule setStatus_ok [OF inv k(2)])
  have f: "\<forall>kv \<in> set (accountStatus (setStatus a ''failed'' s)). snd kv \<in> set knownStatuses"
    by (rule setStatus_ok [OF inv k(1)])
  have fi: "\<forall>kv \<in> set (accountStatus (setStatus a ''failed'' (setStatus a ''initializing'' s))).
              snd kv \<in> set knownStatuses"
    by (rule setStatus_ok [OF i k(1)])
  show ?thesis
    using i f fi by (simp add: CreateAccount createAccount_def Let_def setStatus_def)
next
  case (InitializeError a msg dbOk)
  have "\<forall>kv \<in> set (accountStatus (setStatus a ''failed'' s)). snd kv \<in> set knownStatuses"
    by (rule setStatus_ok [OF inv]) (simp add: knownStatuses_def)
  then show ?thesis
    by (auto simp: InitializeError on_initialize_error_def Let_def
        dest!: db_updateAccount_status split: option.splits)
next
  case (EvQr a dataUrl dbOk)
  show ?thesis
  proof (cases dataUrl)
    case None
    with inv show ?thesis by (simp add: EvQr on_qr_def)
  next
    case (Some url)
    let ?s = "s\<lparr>qrCodes := Map_set (qrCodes s) a url\<rparr>"
    have inv': "\<forall>kv \<in> set (accountStatus ?s). snd kv \<in> set knownStatuses"
      using inv by simp
    show ?thesis
    proof (cases "db_updateAccount dbOk a [(''status'', JStr ''qr_ready''), (''qr_code'', JStr url)] ?s")
      case None
      with inv show ?thesis by (simp add: EvQr Some on_qr_def Let_def)
    next
      case (Some s')
      then have "accountStatus s' = accountStatus s"
        by (auto dest: db_updateAccount_status)
      with inv have "\<forall>kv \<in> set (accountStatus s'). snd kv \<in> set knownStatuses" by simp
      then have "\<forall>kv \<in> set (accountStatus (setStatus a ''qr_ready'' s')). snd kv \<in> set knownStatuses"
        by (rule setStatus_ok) (simp add: knownStatuses_def)
      with Some show ?thesis by (simp add: EvQr \<open>dataUrl = Some url\<close> on_qr_def Let_def)
    qed
  qed
next
  case (EvReady a phone dbOk)
  show ?thesis
  proof (cases "db_updateAccount dbOk a [(''status'', JStr ''ready''), (''phone_number'', JStr phone)] s")
    case None
    with inv show ?thesis by (simp add: EvReady on_ready_def)
  next
    case (Some s')
    then have "accountStatus s' = accountStatus s" by (rule db_updateAccount_status)
    with inv have "\<forall>kv \<in> set (accountStatus s'). snd kv \<in> set knownStatuses" by simp
    then have "\<forall>kv \<in> set (accountStatus (setStatus a ''ready'' s')). snd kv \<in> set knownStatuses"
      by (rule setStatus_ok) (simp add: knownStatuses_def)
    with Some show ?thesis by (simp add: EvReady on_ready_def Let_def)
  qed
next
  case (EvAuthenticated a)
  with inv show ?thesis by (simp add: on_authenticated_def)
next
  case (EvAuthFailure a msg dbOk)
  show ?thesis
  proof (cases "db_updateAccount dbOk a [(''status'', JStr ''auth_failed''), (''error_message'', JStr msg)] s")
    case None
    with inv show ?thesis by (simp add: EvAuthFailure on_auth_failure_def)
  next
    case (Some s')
    then have "accountStatus s' = accountStatus s" by (rule db_updateAccount_status)
    with inv have "\<forall>kv \<in> set (accountStatus s'). snd kv \<in> set knownStatuses" by simp
    then have "\<forall>kv \<in> set (accountStatus (setStatus a ''auth_failed'' s')). snd kv \<in> set knownStatuses"
      by (rule setStatus_ok) (simp add: knownStatuses_def)
    with Some show ?thesis by (simp add: EvAuthFailure on_auth_failure_def)
  qed
next
  case (EvDisconnected a reason dbOk)
  show ?thesis
  proof (cases "db_updateAccount dbOk a [(''status'', JStr ''disconnected''), (''error_message'', JStr reason)] s")
    case None
    with inv show ?thesis by (simp add: EvDisconnected on_disconnected_def)
  next
    case (Some s')
    then have "accountStatus s' = accountStatus s" by (rule db_updateAccount_status)
    with inv have "\<forall>kv \<in> set (accountStatus s'). snd kv \<in> set knownStatuses" by simp
    then have "\<forall>kv \<in> set (accountStatus (setStatus a ''disconnected'' s')). snd kv \<in> set knownStatuses"
      by (rule setStatus_ok) (simp add: knownStatuses_def)
    with Some show ?thesis by (simp add: EvDisconnected on_disconnected_def)
  qed
next
  case (DeleteAccount a destroy dbOk)
  from inv have "\<forall>kv \<in> set (Map_delete (accountStatus s) a). snd kv \<in> set knownStatuses"
    by (rule Map_delete_ok)
  with inv show ?thesis
    by (auto simp: DeleteAccount deleteAccount_def Let_def split: option.splits sum.splits)
next
  case (ReconnectStart a fsOk dbOk)
  have c: "\<forall>kv \<in> set (accountStatus (snd (reconnectAccount_catch s a dbOk))). snd kv \<in> set knownStatuses"
  proof (cases "db_updateAccount dbOk a [(''status'', JStr ''disconnected'')] s")
    case None
    with inv show ?thesis by (simp add: reconnectAccount_catch_def)
  next
    case (Some s')
    then have "accountStatus s' = accountStatus s" by (rule db_updateAccount_status)
    with inv have "\<forall>kv \<in> set (accountStatus s'). snd kv \<in> set knownStatuses" by simp
    then have "\<forall>kv \<in> set (accountStatus (setStatus a ''disconnected'' s')). snd kv \<in> set knownStatuses"
      by (rule setStatus_ok) (simp add: knownStatuses_def)
    with Some show ?thesis by (simp add: reconnectAccount_catch_def)
  qed
  have "\<forall>kv \<in> set (accountStatus (setStatus a ''initializing'' s)). snd kv \<in> set knownStatuses"
    by (rule setStatus_ok [OF inv]) (simp add: knownStatuses_def)
  with c show ?thesis
    by (simp add: ReconnectStart reconnectAccount_start_def Let_def setStatus_def)
next
  case (ReconnectInitFailed a dbOk)
  show ?thesis
  proof (cases "db_updateAccount dbOk a [(''status'', JStr ''disconnected'')] s")
    case None
    with inv show ?thesis by (simp add: ReconnectInitFailed reconnectAccount_catch_def)
  next
    case (Some s')
    then have "accountStatus s' = accountStatus s" by (rule db_updateAccount_status)
    with inv have "\<forall>kv \<in> set (accountStatus s'). snd kv \<in> set knownStatuses" by simp
    then have "\<forall>kv \<in> set (accountStatus (setStatus a ''disconnected'' s')). snd kv \<in> set knownStatuses"
      by (rule setStatus_ok) (simp add: knownStatuses_def)
    with Some show ?thesis by (simp add: ReconnectInitFailed reconnectAccount_catch_def)
  qed
next
  case (SendMessage now outcome a number message options)
  with inv show ?thesis by (simp add: accountStatus_sendMessage)
qed

lemma runOps_statuses:
  "\<forall>kv \<in> set (accountStatus s). snd kv \<in> set knownStatuses \<Longrightarrow>
   \<forall>kv \<in> set (accountStatus (runOps ops s)). snd kv \<in> set knownStatuses"
proof (induction ops arbitrary: s)
  case Nil
  then show ?case by (simp add: runOps_def)
next
  case (Cons op ops)
  from applyOp_statuses [OF Cons.prems]
  have "\<forall>kv \<in> set (accountStatus (applyOp op s)). snd kv \<in> set knownStatuses" .
  from Cons.IH [OF this] show ?case by (simp add: runOps_def)
qed

lemma db_updateAccount_ok_status:
  "\<exists>s'. db_updateAccount True a u s = Some s' \<and> accountStatus s' = accountStatus s"
  by (simp add: db_updateAccount_def split: option.splits)

lemma getAccountStatus_setStatus:
  "getAccountStatus (setStatus a st s) a = Some st"
  by (simp add: getAccountStatus_def setStatus_def Map_get_Map_set)

lemma handlers_unguarded:
  "getAccountStatus (on_qr s a (Some url) True) a = Some ''qr_ready''"
  "getAccountStatus (on_ready s a phone True) a = Some ''ready''"
  "getAccountStatus (on_auth_failure s a msg True) a = Some ''auth_failed''"
  "getAccountStatus (on_disconnected s a reason True) a = Some ''disconnected''"
  "getAccountStatus (on_initialize_error s a msg dbOk) a = Some ''failed''"
  by (simp_all add: on_qr_def on_ready_def on_auth_failure_def on_disconnected_def
      on_initialize_error_def db_updateAccount_def getAccountStatus_def setStatus_def
      Map_get_Map_set Let_def split: option.splits)

text \<open>What each operation does to the status of its account.\<close>

lemma createAccount_status:
  "getAccountStatus (snd (createAccount s a True True name descr)) a = Some ''initializing''"
  "getAccountStatus (snd (createAccount s a False dbOk name descr)) a = Some ''failed''"
  "getAccountStatus (snd (createAccount s a True False name descr)) a = Some ''failed''"
  by (simp_all add: createAccount_def Let_def getAccountStatus_def setStatus_def Map_get_Map_set)

lemma handlers_store_down:
  "getAccountStatus (on_qr s a dataUrl False) a = getAccountStatus s a"
  "getAccountStatus (on_qr s a None dbOk) a = getAccountStatus s a"
  "getAccountStatus (on_ready s a phone False) a = getAccountStatus s a"
  "getAccountStatus (on_auth_failure s a msg False) a = getAccountStatus s a"
  "getAccountStatus (on_disconnected s a reason False) a = getAccountStatus s a"
  "getAccountStatus (on_authenticated s a) a = getAccountStatus s a"
  by (simp_all add: on_qr_def on_ready_def on_auth_failure_def on_disconnected_def
      on_authenticated_def db_updateAccount_def getAccountStatus_def Let_def
      split: option.splits)

lemma reconnect_status:
  "getAccountStatus (snd (reconnectAccount_start s a True dbOk)) a = Some ''initializing''"
  "reconnectAccount_start s a False dbOk = reconnectAccount_catch s a dbOk"
  "getAccountStatus (snd (reconnectAccount_catch s a True)) a = Some ''disconnected''"
  "fst (reconnectAccount_catch s a True) = Inr ()"
  "reconnectAccount_catch s a False = (Inl StoreError, s)"
  by (simp_all add: reconnectAccount_start_def reconnectAccount_catch_def db_updateAccount_def
      getAccountStatus_def setStatus_def Map_get_Map_set Let_def split: option.splits)

lemma deleteAccount_status:
  "getAccountStatus (snd (deleteAccount s a None dbOk)) a = None"
  by (simp add: deleteAccount_def Let_def getAccountStatus_def Map_get_Map_delete
      split: option.splits)

text \<open>
  C7, amended: after any sequence of operations and events from the start of the
  process, the status of an account, when it has one, is one of \<open>initializing\<close>,
  \<open>qr_ready\<close>, \<open>ready\<close>, \<open>auth_failed\<close>, \<open>disconnected\<close> and \<open>failed\<close>.
  No operation looks at the current status. \<open>createAccount\<close> gives \<open>initializing\<close>
  when it succeeds and \<open>failed\<close> when the session directory or the store fails; a failed
  initialisation of the client gives \<open>failed\<close>. With the store written, \<open>qr\<close> gives
  \<open>qr_ready\<close>, \<open>ready\<close> gives \<open>ready\<close>, \<open>auth_failure\<close> gives
  \<open>auth_failed\<close> and \<open>disconnected\<close> gives \<open>disconnected\<close>; when the store
  write fails, or no QR image can be made, or the event is \<open>authenticated\<close>, the
  status stays as it is. Reconnect gives \<open>initializing\<close>; when the directory or the
  initialisation fails it gives \<open>disconnected\<close> if the store can be written and
  otherwise throws and changes nothing. A \<open>deleteAccount\<close> whose teardown does not
  fail removes the status.
\<close>

theorem lifecycle_statuses:
  "(getAccountStatus (runOps ops initialWorld) a = Some st \<longrightarrow> st \<in> set knownStatuses) \<and>
   getAccountStatus (snd (createAccount s a True True name descr)) a = Some ''initializing'' \<and>
   getAccountStatus (snd (createAccount s a False dbOk name descr)) a = Some ''failed'' \<and>
   getAccountStatus (snd (createAccount s a True False name descr)) a = Some ''failed'' \<and>
   getAccountStatus (on_initialize_error s a msg dbOk) a = Some ''failed'' \<and>
   getAccountStatus (on_qr s a (Some url) True) a = Some ''qr_ready'' \<and>
   getAccountStatus (on_ready s a phone True) a = Some ''ready'' \<and>
   getAccountStatus (on_auth_failure s a msg True) a = Some ''auth_failed'' \<and>
   getAccountStatus (on_disconnected s a reason True) a = Some ''disconnected'' \<and>
   getAccountStatus (on_qr s a dataUrl False) a = getAccountStatus s a \<and>
   getAccountStatus (on_qr s a None dbOk) a = getAccountStatus s a \<and>
   getAccountStatus (on_ready s a phone False) a = getAccountStatus s a \<and>
   getAccountStatus (on_auth_failure s a msg False) a = getAccountStatus s a \<and>
   getAccountStatus (on_disconnected s a reason False) a = getAccountStatus s a \<and>
   getAccountStatus (on_authenticated s a) a = getAccountStatus s a \<and>
   getAccountStatus (snd (reconnectAccount_start s a True dbOk)) a = Some ''initializing'' \<and>
   reconnectAccount_start s a False dbOk = reconnectAccount_catch s a dbOk \<and>
   getAccountStatus (snd (reconnectAccount_catch s a True)) a = Some ''disconnected'' \<and>
   reconnectAccount_catch s a False = (Inl StoreError, s) \<and>
   getAccountStatus (snd (deleteAccount s a None dbOk)) a = None"
proof -
  have "\<forall>kv \<in> set (accountStatus initialWorld). snd kv \<in> set knownStatuses"
    by (simp add: initialWorld_def)
  then have inv: "\<forall>kv \<in> set (accountStatus (runOps ops initialWorld)). snd kv \<in> set knownStatuses"
    by (rule runOps_statuses)
  have "st \<in> set knownStatuses" if "getAccountStatus (runOps ops initialWorld) a = Some st"
  proof -
    from that have "(a, st) \<in> set (accountStatus (runOps ops initialWorld))"
      unfolding getAccountStatus_def by (rule Map_get_mem)
    with inv show ?thesis by auto
  qed
  then show ?thesis
    by (simp add: handlers_unguarded createAccount_status handlers_store_down reconnect_status
        deleteAccount_status)
qed

text \<open>
  C7, as stated, fails: when the client of a new account cannot be initialised, the
  status of the account becomes \<open>failed\<close>, which is none of the five states of the graph.
\<close>

theorem status_failed_reached:
  "getAccountStatus
     (runOps [CreateAccount ''A'' True True ''sales'' '''',
              InitializeError ''A'' ''Failed to launch the browser process'' True] initialWorld) ''A''
     = Some ''failed'' \<and>
   ''failed'' \<notin> set [''initializing'', ''qr_ready'', ''ready'', ''auth_failed'', ''disconnected'']"
  by (simp add: runOps_def handlers_unguarded)

text \<open>The amended C7 on an account that is created, shows a QR code and becomes ready.\<close>

theorem lifecycle_statuses_witness:
  "getAccountStatus
     (runOps [CreateAccount ''A'' True True ''sales'' '''', EvQr ''A'' (Some ''data:image/png;base64,AAAA'') True,
              EvReady ''A'' ''919876543210'' True] initialWorld) ''A'' = Some ''ready'' \<and>
   ''ready'' \<in> set knownStatuses"
proof -
  have h: "getAccountStatus
     (runOps [CreateAccount ''A'' True True ''sales'' '''', EvQr ''A'' (Some ''data:image/png;base64,AAAA'') True,
              EvReady ''A'' ''919876543210'' True] initialWorld) ''A'' = Some ''ready''"
    by (simp add: runOps_def handlers_unguarded)
  with lifecycle_statuses [THEN conjunct1,
         of "[CreateAccount ''A'' True True ''sales'' '''', EvQr ''A'' (Some ''data:image/png;base64,AAAA'') True,
              EvReady ''A'' ''919876543210'' True]" "''A''" "''ready''"]
  show ?thesis by blast
qed

text \<open>
  C8, amended: for an account with a client, a failing \<open>destroy\<close> makes
  \<open>deleteAccount\<close> throw that failure and leave the whole state as it was (handle, QR
  code, status and stored row); when \<open>destroy\<close> and the store succeed, the handle, the
  QR code, the status and the row are gone.
\<close>

theorem deleteAccount_destroy_rejected:
  assumes "Map_get (clients s) a = Some c"
  shows "deleteAccount s a (Some msg) dbOk = (Inl (DestroyError msg), s) \<and>
         fst (deleteAccount s a None True) = Inr True \<and>
         Map_get (clients (snd (deleteAccount s a None True))) a = None \<and>
         Map_get (qrCodes (snd (deleteAccount s a None True))) a = None \<and>
         Map_get (accountStatus (snd (deleteAccount s a None True))) a = None \<and>
         Map_get (dbAccounts (snd (deleteAccount s a None True))) a = None"
  using assms by (simp add: deleteAccount_def Let_def Map_get_Map_delete)

text \<open>The amended C8 at the registered account \<open>A\<close>.\<close>

theorem deleteAccount_destroy_rejected_witness:
  "Map_get (clients registeredWorld) ''A'' = Some \<lparr>pupPage = Some False\<rparr> \<and>
   deleteAccount registeredWorld ''A'' (Some ''Protocol error'') True
     = (Inl (DestroyError ''Protocol error''), registeredWorld) \<and>
   Map_get (clients (snd (deleteAccount registeredWorld ''A'' None True))) ''A'' = None \<and>
   Map_get (dbAccounts (snd (deleteAccount registeredWorld ''A'' None True))) ''A'' = None"
proof -
  have h: "Map_get (clients registeredWorld) ''A'' = Some \<lparr>pupPage = Some False\<rparr>"
    by (simp add: registeredWorld_def readyWorld_def initialWorld_def Map_get_def)
  from h deleteAccount_destroy_rejected [OF h, of "''Protocol error''" True]
  show ?thesis by simp
qed

text \<open>
  C8, as stated, fails: at the registered account \<open>A\<close> a failing \<open>destroy\<close> reaches
  the caller as an error, and the handle, the status and the stored row are still there.
\<close>

theorem deleteAccount_failure_propagates:
  "fst (deleteAccount registeredWorld ''A'' (Some ''Protocol error'') True)
     = Inl (DestroyError ''Protocol error'') \<and>
   Map_get (clients (snd (deleteAccount registeredWorld ''A'' (Some ''Protocol error'') True))) ''A''
     = Some \<lparr>pupPage = Some False\<rparr> \<and>
   Map_get (accountStatus (snd (deleteAccount registeredWorld ''A'' (Some ''Protocol error'') True))) ''A''
     = Some ''ready'' \<and>
   Map_get (dbAccounts (snd (deleteAccount registeredWorld ''A'' (Some ''Protocol error'') True))) ''A''
     \<noteq> None"
  by (simp add: deleteAccount_def registeredWorld_def readyWorld_def initialWorld_def Map_get_def)

section \<open>Properties of the webhook fan-out\<close>













lemma filter_update_gain:
  "i < length xs \<Longrightarrow> \<not> Q (xs ! i) \<Longrightarrow> Q y \<Longrightarrow>
   length (filter Q (xs[i := y])) = Suc (length (filter Q xs))"
proof (induction xs arbitrary: i)
  case Nil
  then show ?case by simp
next
  case (Cons x xs)
  then show ?case by (cases i) auto
qed


























section \<open>Properties of the webhook secret cache\<close>

text \<open>Creating and toggling a webhook leave the secret cache as it is.\<close>

lemma post_webhooks_secret_cache:
  "webhookSecretCache (snd (post_webhooks s newId dbOk a url secret act)) = webhookSecretCache s"
  by (simp add: post_webhooks_def createWebhook_def Let_def)

lemma patch_webhooks_toggle_secret_cache:
  "webhookSecretCache (snd (patch_webhooks_toggle s getOk updateOk wid)) = webhookSecretCache s"
  by (simp add: patch_webhooks_toggle_def updateWebhook_def Let_def
      split: sum.splits option.splits)

text \<open>The loop of the delete route removes exactly the keys with the prefix.\<close>

lemma invalidateSecrets_filter:
  "invalidateSecrets p keys c = filter (\<lambda>kv. \<not> (fst kv \<in> set keys \<and> startsWith (fst kv) p)) c"
proof (induction keys arbitrary: c)
  case Nil
  show ?case by simp
next
  case (Cons key keys)
  show ?case
    by (cases "startsWith key p") (auto simp: Cons.IH Map_delete_def intro!: filter_cong)
qed

lemma invalidateSecrets_purges:
  "k \<in> set (Map_keys (invalidateSecrets p (Map_keys c) c)) \<Longrightarrow> \<not> startsWith k p"
  by (auto simp: invalidateSecrets_filter Map_keys_def)

lemma deleteWebhook_secret_cache:
  "deleteWebhook fetchOk ok wid s = Some s' \<Longrightarrow> webhookSecretCache s' = webhookSecretCache s"
  by (auto simp: deleteWebhook_def Let_def split: if_splits option.splits)

lemma startsWith_secretCacheKey:
  "startsWith (secretCacheKey a sec) (''webhook_'' @ a @ ''_'')"
  by (simp add: startsWith_def secretCacheKey_def)

text \<open>After a successful delete no secret of the webhook's account is cached.\<close>

lemma delete_webhooks_purges:
  assumes "getWebhook s getOk wid = Inr (Some existing)"
    and "fst (delete_webhooks s getOk fetchOk deleteOk wid) = Inr ()"
  shows "Map_get (webhookSecretCache (snd (delete_webhooks s getOk fetchOk deleteOk wid)))
           (secretCacheKey (wh_account_id existing) sec) = None"
proof (cases "deleteWebhook fetchOk deleteOk wid s")
  case None
  with assms show ?thesis by (simp add: delete_webhooks_def)
next
  case (Some s')
  let ?c = "invalidateSecrets (''webhook_'' @ wh_account_id existing @ ''_'')
              (Map_keys (webhookSecretCache s')) (webhookSecretCache s')"
  have "secretCacheKey (wh_account_id existing) sec \<notin> set (Map_keys ?c)"
    using invalidateSecrets_purges startsWith_secretCacheKey by blast
  then have "Map_get ?c (secretCacheKey (wh_account_id existing) sec) = None"
    by (simp add: Map_get_def Map_keys_def map_of_eq_None_iff)
  then show ?thesis using assms(1) Some by (simp add: delete_webhooks_def)
qed

text \<open>A cached entry decides the request at any time, whatever the store holds.\<close>

lemma webhook_reply_auth_cached:
  assumes "Map_get (webhookSecretCache s) (secretCacheKey a sec) = Some v"
    and "a \<noteq> []" and "n \<noteq> []" and "sec \<noteq> []"
  shows "webhook_reply_auth s now dbOk a n sec =
           ((case v of None \<Rightarrow> Inl 401 | Some w \<Rightarrow> Inr w), s)"
  using assms by (simp add: webhook_reply_auth_def Let_def split: option.splits)

lemma hookWorld_first_reply:
  "webhook_reply_auth hookWorld 0 True ''A'' ''+919876543210'' ''s3cr3t'' =
     (Inr hookCrm,
      hookWorld\<lparr>queryCache := [(''webhooks_A'', ([hookCrm, hookN8n, hookOff], 0))],
                webhookSecretCache := [(''webhook_A_s3cr3t'', Some hookCrm)]\<rparr>)"
  by (simp add: webhook_reply_auth_def getWebhooks_def hookWorld_def registeredWorld_def
      readyWorld_def initialWorld_def secretCacheKey_def Map_set3_def
      Map_get_def Let_def hookCrm_def hookN8n_def hookOff_def hookOther_def)

text \<open>
  C2 (evaluation of the code): a reply request with the secret of the active webhook
  \<open>w1\<close> is accepted and cached. Toggling \<open>w1\<close> then switches it off in the table,
  yet the cache still holds the entry of the account \<open>A\<close>, and the next reply request
  with the same secret is accepted.
\<close>

theorem toggle_keeps_cached_secret:
  "webhook_reply_auth hookWorld 0 True ''A'' ''+919876543210'' ''s3cr3t'' = (Inr hookCrm, repliedWorld) \<and>
   fst (patch_webhooks_toggle repliedWorld True True ''w1'') = Inr (Some (hookCrm\<lparr>wh_is_active := False\<rparr>)) \<and>
   find (\<lambda>w. wh_id w = ''w1'') (dbWebhooks (snd (patch_webhooks_toggle repliedWorld True True ''w1'')))
     = Some (hookCrm\<lparr>wh_is_active := False\<rparr>) \<and>
   Map_get (webhookSecretCache (snd (patch_webhooks_toggle repliedWorld True True ''w1'')))
     (secretCacheKey ''A'' ''s3cr3t'') = Some (Some hookCrm) \<and>
   fst (webhook_reply_auth (snd (patch_webhooks_toggle repliedWorld True True ''w1'')) 1 True
          ''A'' ''+919876543210'' ''s3cr3t'') = Inr hookCrm"
proof -
  have 1: "webhook_reply_auth hookWorld 0 True ''A'' ''+919876543210'' ''s3cr3t'' = (Inr hookCrm, repliedWorld)"
    by (simp add: hookWorld_first_reply repliedWorld_def)
  have c: "webhookSecretCache (snd (patch_webhooks_toggle repliedWorld True True ''w1''))
             = [(''webhook_A_s3cr3t'', Some hookCrm)]"
    by (simp add: patch_webhooks_toggle_secret_cache repliedWorld_def)
  have k: "Map_get (webhookSecretCache (snd (patch_webhooks_toggle repliedWorld True True ''w1'')))
     (secretCacheKey ''A'' ''s3cr3t'') = Some (Some hookCrm)"
    by (simp add: c secretCacheKey_def Map_get_def)
  have t: "fst (patch_webhooks_toggle repliedWorld True True ''w1'') = Inr (Some (hookCrm\<lparr>wh_is_active := False\<rparr>))"
    "find (\<lambda>w. wh_id w = ''w1'') (dbWebhooks (snd (patch_webhooks_toggle repliedWorld True True ''w1'')))
     = Some (hookCrm\<lparr>wh_is_active := False\<rparr>)"
    by (simp_all add: patch_webhooks_toggle_def getWebhook_def updateWebhook_def Let_def
        repliedWorld_def hookWorld_def hookCrm_def hookN8n_def hookOff_def hookOther_def)
  have r: "fst (webhook_reply_auth (snd (patch_webhooks_toggle repliedWorld True True ''w1'')) 1 True
          ''A'' ''+919876543210'' ''s3cr3t'') = Inr hookCrm"
    by (simp add: webhook_reply_auth_cached [OF k])
  from 1 t k r show ?thesis by blast
qed

text \<open>
  C3 (evaluation of the code): the validation cached at time 0 decides the request made
  600000 ms later, ten minutes, while the store is down: the request is accepted from
  the cache, and without the entry the same request ends with status 500.
\<close>

theorem cached_secret_outlives_ttl:
  "webhook_reply_auth hookWorld 0 True ''A'' ''+919876543210'' ''s3cr3t'' = (Inr hookCrm, repliedWorld) \<and>
   webhook_reply_auth repliedWorld 600000 False ''A'' ''+919876543210'' ''s3cr3t''
     = (Inr hookCrm, repliedWorld) \<and>
   fst (webhook_reply_auth (clearSecretCache repliedWorld) 600000 False ''A'' ''+919876543210'' ''s3cr3t'')
     = Inl 500"
proof -
  have 1: "webhook_reply_auth hookWorld 0 True ''A'' ''+919876543210'' ''s3cr3t'' = (Inr hookCrm, repliedWorld)"
    by (simp add: hookWorld_first_reply repliedWorld_def)
  have k: "Map_get (webhookSecretCache repliedWorld) (secretCacheKey ''A'' ''s3cr3t'') = Some (Some hookCrm)"
    by (simp add: repliedWorld_def secretCacheKey_def Map_get_def)
  have 2: "webhook_reply_auth repliedWorld 600000 False ''A'' ''+919876543210'' ''s3cr3t''
     = (Inr hookCrm, repliedWorld)"
    by (simp add: webhook_reply_auth_cached [OF k])
  have 3: "fst (webhook_reply_auth (clearSecretCache repliedWorld) 600000 False ''A'' ''+919876543210'' ''s3cr3t'')
     = Inl 500"
    by (simp add: webhook_reply_auth_def getWebhooks_def clearSecretCache_def repliedWorld_def
        secretCacheKey_def Map_get_def Let_def CACHE_TTL_def)
  from 1 2 3 show ?thesis by blast
qed

end
